theory Spec2Isabelle
  imports Complex_Main "HOL-Library.Log_Nat" "HOL-Library.Multiset"
begin

section \<open>Machine arithmetic of the four engines\<close>

subsection \<open>Binary64 numbers\<close>

text \<open>
  A \<open>double\<close> of C++, C#, Java and a JavaScript number is a binary64 value. A finite
  binary64 value is a rational, and every arithmetic operation returns the exact result
  rounded to 53 significant bits, ties to the even significand. \<open>rd\<close> is that rounding.
  The exponent range is left unbounded: no overflow to infinity and no subnormal numbers.
  The engines only multiply, add and divide numbers built from 32-bit counters, a few
  literals and timestamps, so every value they compute is zero or has a magnitude
  between \<open>2^-60\<close> and \<open>2^80\<close>, far inside the normal range. NaN and the infinities do
  not occur and are not modelled.
\<close>

definition round_even :: "rat \<Rightarrow> int" where
  "round_even x =
     (let f = \<lfloor>x\<rfloor>; r = x - of_int f
      in if r < 1 / 2 then f else if 1 / 2 < r then f + 1 else if even f then f else f + 1)"

definition pow2 :: "int \<Rightarrow> rat" where
  "pow2 e = (if 0 \<le> e then 2 ^ nat e else 1 / 2 ^ nat (- e))"

definition ilog2 :: "rat \<Rightarrow> int" where
  \<comment> \<open>the binary exponent \<open>\<lfloor>log\<^sub>2 a\<rfloor>\<close> of a positive rational\<close>
  "ilog2 a = (if 1 \<le> a then bitlen \<lfloor>a\<rfloor> - 1 else - bitlen (\<lceil>1 / a\<rceil> - 1))"

definition rd :: "rat \<Rightarrow> rat" where
  "rd x =
     (if x = 0 then 0
      else let e = ilog2 \<bar>x\<bar> - 52 in of_int (round_even (x / pow2 e)) * pow2 e)"

definition dadd :: "rat \<Rightarrow> rat \<Rightarrow> rat" where
  "dadd x y = rd (x + y)"

definition dsub :: "rat \<Rightarrow> rat \<Rightarrow> rat" where
  "dsub x y = rd (x - y)"

definition dmul :: "rat \<Rightarrow> rat \<Rightarrow> rat" where
  "dmul x y = rd (x * y)"

definition ddiv :: "rat \<Rightarrow> rat \<Rightarrow> rat" where
  \<comment> \<open>the engines never divide by zero: every division is guarded or by a literal\<close>
  "ddiv x y = rd (x / y)"

definition d_of_int :: "int \<Rightarrow> rat" where
  \<comment> \<open>conversion of an \<open>int\<close> or \<open>long\<close> to \<open>double\<close>\<close>
  "d_of_int n = rd (of_int n)"

text \<open>
  The four rounding functions. \<open>std::round\<close> rounds a tie away from zero; C#'s
  one-argument \<open>Math.Round\<close> rounds a tie to the even integer
  (\<open>MidpointRounding.ToEven\<close> is its default); Java's \<open>Math.round\<close> and JavaScript's
  \<open>Math.round\<close> round a tie towards plus infinity.
\<close>

definition std_round :: "rat \<Rightarrow> int" where
  "std_round x = (if 0 \<le> x then \<lfloor>x + 1 / 2\<rfloor> else - \<lfloor>- x + 1 / 2\<rfloor>)"

definition Math_Round :: "rat \<Rightarrow> int" where
  "Math_Round x = round_even x"

definition Math_round :: "rat \<Rightarrow> int" where
  "Math_round x = \<lfloor>x + 1 / 2\<rfloor>"

subsection \<open>32-bit and 64-bit integers\<close>

definition INT_MIN :: int where
  "INT_MIN = - 2147483648"

definition INT_MAX :: int where
  "INT_MAX = 2147483647"

definition in_int32 :: "int \<Rightarrow> bool" where
  "in_int32 x = (INT_MIN \<le> x \<and> x \<le> INT_MAX)"

definition wrap32 :: "int \<Rightarrow> int" where
  \<comment> \<open>unchecked \<open>int\<close> arithmetic of C# and Java: the result modulo \<open>2^32\<close>, read as signed\<close>
  "wrap32 x = (x + 2147483648) mod 4294967296 - 2147483648"

definition wrap64 :: "int \<Rightarrow> int" where
  "wrap64 x = (x + 9223372036854775808) mod 18446744073709551616 - 9223372036854775808"

definition cpp_int :: "int \<Rightarrow> int option" where
  \<comment> \<open>signed overflow and an out-of-range conversion are undefined behaviour in C++:
      the model stops with \<open>None\<close>\<close>
  "cpp_int x = (if in_int32 x then Some x else None)"

definition tdiv :: "int \<Rightarrow> int \<Rightarrow> int" where
  \<comment> \<open>integer division of C++, C# and Java: the quotient truncated towards zero\<close>
  "tdiv a b = (if (a < 0) = (b < 0) then \<bar>a\<bar> div \<bar>b\<bar> else - (\<bar>a\<bar> div \<bar>b\<bar>))"

definition trem :: "int \<Rightarrow> int \<Rightarrow> int" where
  \<comment> \<open>the remainder \<open>%\<close> that goes with \<open>tdiv\<close>\<close>
  "trem a b = a - b * tdiv a b"

definition cs_int_of_double :: "int \<Rightarrow> int" where
  \<comment> \<open>C#'s \<open>(int)\<close> of an integral \<open>double\<close>. Out of range the language leaves the value
      unspecified in an unchecked context; x86-64 runtimes give \<open>int.MinValue\<close>.\<close>
  "cs_int_of_double v = (if in_int32 v then v else INT_MIN)"

definition java_long_of_round :: "int \<Rightarrow> int" where
  \<comment> \<open>\<open>Math.round\<close> returns a \<open>long\<close> and saturates at the ends of its range\<close>
  "java_long_of_round v = max (- 9223372036854775808) (min 9223372036854775807 v)"

section \<open>Scoring calculator\<close>

text \<open>\<open>ScoringEngine::calculatePoints\<close> of \<open>confusion_engine.cpp\<close>.\<close>

definition calculatePoints :: "int \<Rightarrow> int \<Rightarrow> int \<Rightarrow> int option" where
  "calculatePoints reactionTimeMs currentCombo difficulty =
     (let basePoints = 10 in
      case cpp_int (2000 - reactionTimeMs) of
        None \<Rightarrow> None
      | Some d \<Rightarrow>
          let speedBonus = max 0 (tdiv d 100);
              comboMultiplier = dadd 1 (dmul (d_of_int currentCombo) (rd (1 / 10)))
          in (case cpp_int (difficulty - 1) of
                None \<Rightarrow> None
              | Some l \<Rightarrow>
                  (let difficultyBonus = dadd 1 (dmul (d_of_int l) (rd (15 / 100)))
                   in cpp_int (std_round
                        (dmul (dmul (d_of_int (basePoints + speedBonus)) comboMultiplier)
                           difficultyBonus)))))"

text \<open>\<open>ScoreCalculator.CalculatePoints\<close> of \<open>ConfusionEngine.cs\<close>.\<close>

definition CalculatePoints :: "int \<Rightarrow> int \<Rightarrow> int \<Rightarrow> int" where
  "CalculatePoints reactionTimeMs currentCombo difficulty =
     (let basePoints = 10;
          speedBonus = max 0 (tdiv (wrap32 (2000 - reactionTimeMs)) 100);
          comboMultiplier = dadd 1 (dmul (d_of_int currentCombo) (rd (1 / 10)));
          difficultyBonus = dadd 1 (dmul (d_of_int (wrap32 (difficulty - 1))) (rd (15 / 100)))
      in cs_int_of_double (Math_Round
           (dmul (dmul (d_of_int (wrap32 (basePoints + speedBonus))) comboMultiplier)
              difficultyBonus)))"

definition CalculateCoins :: "int \<Rightarrow> int" where
  "CalculateCoins totalPoints = tdiv totalPoints 100"

definition CalculateStars :: "int \<Rightarrow> int" where
  "CalculateStars correctAnswers = tdiv correctAnswers 10"

text \<open>
  \<open>SessionAnalyzer.calculatePoints\<close> of the Java engine; its reaction time is a
  \<open>long\<close>, narrowed to \<open>int\<close> after the division.
\<close>

definition calculatePoints_java :: "int \<Rightarrow> int \<Rightarrow> int \<Rightarrow> int" where
  "calculatePoints_java reactionTimeMs combo difficulty =
     (let basePoints = 10;
          speedBonus = max 0 (wrap32 (tdiv (wrap64 (2000 - reactionTimeMs)) 100));
          multiplier = dadd 1 (dmul (d_of_int combo) (rd (1 / 10)));
          diffBonus = dadd 1 (dmul (d_of_int (wrap32 (difficulty - 1))) (rd (15 / 100)))
      in wrap32 (java_long_of_round (Math_round
           (dmul (dmul (d_of_int (wrap32 (basePoints + speedBonus))) multiplier) diffBonus))))"

text \<open>
  The client, \<open>app.js\<close>: the points the click handler of \<open>startConfusionMode\<close> adds to
  \<open>totalPoints\<close> for a correct answer. \<open>RT\<close> is a difference of two \<open>Date.now()\<close>
  readings and \<open>combo\<close> a counter, both integral numbers; \<open>combo\<close> is the value after
  the increment, as on the servers. The handler has a \<open>difficulty\<close> variable but the
  points do not read it.
\<close>

definition js_points :: "int \<Rightarrow> int \<Rightarrow> int" where
  "js_points RT combo =
     (let basePoints = 10;
          speedBonus = max 0 (of_int \<lfloor>ddiv (dsub 2000 (d_of_int RT)) 100\<rfloor>);
          multiplier = dadd 1 (dmul (d_of_int combo) (rd (1 / 10)))
      in Math_round (dmul (dadd basePoints speedBonus) multiplier))"

section \<open>Performance rating\<close>

text \<open>\<open>PerformanceRater::getPerformanceRating\<close> of \<open>confusion_engine.cpp\<close>.\<close>

definition getPerformanceRating :: "rat \<Rightarrow> int \<Rightarrow> string" where
  "getPerformanceRating avgReactionMs score =
     (if avgReactionMs < 400 \<and> score > 50 then ''Legendary''
      else if avgReactionMs < 500 \<and> score > 40 then ''Grandmaster''
      else if avgReactionMs < 600 \<and> score > 30 then ''Master''
      else if avgReactionMs < 700 \<and> score > 25 then ''Expert''
      else if avgReactionMs < 800 \<and> score > 20 then ''Advanced''
      else if avgReactionMs < 1000 \<and> score > 15 then ''Proficient''
      else if avgReactionMs < 1200 \<and> score > 10 then ''Intermediate''
      else if avgReactionMs < 1500 \<and> score > 5 then ''Beginner''
      else ''Trainee'')"


text \<open>\<open>SessionResult.CalculateRating\<close> of \<open>ConfusionEngine.cs\<close>, as a function of the two
  fields it reads; \<open>GetFinalReport\<close> below stores its value in \<open>Rating\<close>.\<close>

definition CalculateRating :: "rat \<Rightarrow> int \<Rightarrow> string" where
  "CalculateRating AvgReactionMs CorrectAnswers =
     (if AvgReactionMs < 400 \<and> CorrectAnswers > 50 then ''Legendary''
      else if AvgReactionMs < 500 \<and> CorrectAnswers > 40 then ''Grandmaster''
      else if AvgReactionMs < 600 \<and> CorrectAnswers > 30 then ''Master''
      else if AvgReactionMs < 700 \<and> CorrectAnswers > 25 then ''Expert''
      else if AvgReactionMs < 800 \<and> CorrectAnswers > 20 then ''Advanced''
      else if AvgReactionMs < 1000 \<and> CorrectAnswers > 15 then ''Proficient''
      else if AvgReactionMs < 1200 \<and> CorrectAnswers > 10 then ''Intermediate''
      else if AvgReactionMs < 1500 \<and> CorrectAnswers > 5 then ''Beginner''
      else ''Trainee'')"

text \<open>
  \<open>SessionAnalyzer.getPerformanceRating\<close> of the Java engine reads the recorded reaction
  times and the tracker's count of correct answers. \<open>LongStream.average\<close> adds the
  entries up in a \<open>long\<close>, which wraps around, and divides the sum by the count in
  \<open>double\<close> arithmetic; the method returns 0 on an empty list.
\<close>

definition getAverageReactionTime :: "int list \<Rightarrow> rat" where
  "getAverageReactionTime reactionTimes =
     (if reactionTimes = [] then 0
      else ddiv (d_of_int (fold (\<lambda>t sum. wrap64 (sum + t)) reactionTimes 0))
                (d_of_int (int (length reactionTimes))))"

definition getPerformanceRating_java :: "int list \<Rightarrow> int \<Rightarrow> string" where
  "getPerformanceRating_java reactionTimes totalCorrect =
     (let avgRT = getAverageReactionTime reactionTimes; score = totalCorrect
      in if avgRT < 400 \<and> score > 50 then ''Legendary''
         else if avgRT < 500 \<and> score > 40 then ''Grandmaster''
         else if avgRT < 600 \<and> score > 30 then ''Master''
         else if avgRT < 700 \<and> score > 25 then ''Expert''
         else if avgRT < 800 \<and> score > 20 then ''Advanced''
         else if avgRT < 1000 \<and> score > 15 then ''Proficient''
         else if avgRT < 1200 \<and> score > 10 then ''Intermediate''
         else if avgRT < 1500 \<and> score > 5 then ''Beginner''
         else ''Trainee'')"

text \<open>
  The rating as the specification words it: an ordered table of clauses, each a
  reaction-time upper bound, a correct-count lower bound and a name; the first clause
  whose two conditions both hold gives the rating, and \<open>Trainee\<close> is the default.
\<close>

definition rating_clauses :: "(rat \<times> int \<times> string) list" where
  "rating_clauses =
     [(400, 50, ''Legendary''), (500, 40, ''Grandmaster''), (600, 30, ''Master''),
      (700, 25, ''Expert''), (800, 20, ''Advanced''), (1000, 15, ''Proficient''),
      (1200, 10, ''Intermediate''), (1500, 5, ''Beginner'')]"

fun first_match :: "(rat \<times> int \<times> string) list \<Rightarrow> rat \<Rightarrow> int \<Rightarrow> string" where
  "first_match [] avgReactionMs correctCount = ''Trainee''"
| "first_match ((bound, least, name) # clauses) avgReactionMs correctCount =
     (if avgReactionMs < bound \<and> correctCount > least then name
      else first_match clauses avgReactionMs correctCount)"

definition rating_spec :: "rat \<Rightarrow> int \<Rightarrow> string" where
  "rating_spec avgReactionMs correctCount = first_match rating_clauses avgReactionMs correctCount"

section \<open>The C# session engine\<close>

subsection \<open>Strings and the colour registry\<close>

text \<open>
  \<open>ToUpper\<close> and the comparison \<open>StringComparison.OrdinalIgnoreCase\<close> on the ASCII
  letters, the only ones in a colour name of the registry.
\<close>

definition ToUpper_char :: "char \<Rightarrow> char" where
  "ToUpper_char c =
     (let n = (of_char c :: nat) in if 97 \<le> n \<and> n \<le> 122 then char_of (n - 32) else c)"

definition ToUpper :: "string \<Rightarrow> string" where
  "ToUpper w = map ToUpper_char w"

definition Equals_OrdinalIgnoreCase :: "string \<Rightarrow> string \<Rightarrow> bool" where
  "Equals_OrdinalIgnoreCase a b = (ToUpper a = ToUpper b)"

text \<open>\<open>ColorRegistry.Colors\<close>, in the order of the initialiser, which is the order
  \<open>Keys\<close> enumerates.\<close>

definition Colors :: "(string \<times> string) list" where
  "Colors =
     [(''Red'', ''#ef4444''), (''Blue'', ''#3b82f6''), (''Green'', ''#22c55e''),
      (''Yellow'', ''#eab308''), (''Purple'', ''#8b5cf6''), (''Orange'', ''#f97316''),
      (''Pink'', ''#ff29ff''), (''Cyan'', ''#06b6d4''), (''Indigo'', ''#6366f1''),
      (''Violet'', ''#8b5cf6''), (''Black'', ''#1a1a1a''), (''Brown'', ''#78350f''),
      (''Lavender'', ''#a78bfa''), (''White'', ''#ffffff''), (''Beige'', ''#f5f5dc'')]"

definition Keys :: "string list" where
  "Keys = map fst Colors"

definition GetColorPool :: "int \<Rightarrow> string list" where
  "GetColorPool difficulty =
     (let count = min (int (length Colors)) (wrap32 (4 + wrap32 (wrap32 (difficulty - 1) * 2)))
      in take (nat count) Keys)"

subsection \<open>Session data\<close>

datatype GameMode = Endless | Survival | SpeedRun

datatype GameState = Idle | Active | Paused | Finished

record StroopQuestion =
  TextWord :: string
  FontColorName :: string
  FontColorHex :: string
  Options :: "string list"

text \<open>
  \<open>SessionResult\<close>. Four of its properties have the name of a property of
  \<open>GameSession\<close>; they carry the prefix \<open>Result\<close> here.
\<close>

record SessionResult =
  ResultMode :: GameMode
  ResultTotalPoints :: int
  CorrectAnswers :: int
  ResultWrongAnswers :: int
  ResultMaxCombo :: int
  AvgReactionMs :: rat
  FastestReaction :: rat
  SlowestReaction :: rat
  ElapsedSeconds :: rat
  Accuracy :: rat
  Rating :: string
  CoinsEarned :: int
  StarsEarned :: int

text \<open>
  \<open>GameSession\<close>. The private fields \<open>_reactions\<close> and \<open>_colorPool\<close> lose their
  underscore. \<open>StartTime\<close> and every clock reading are counted in ticks of 100 ns, as
  \<open>DateTime\<close> does. The generator \<open>_random\<close> is not a field of the model: each call of
  \<open>NextQuestion\<close> is given the numbers the generator will return.
\<close>

record GameSession =
  reactions :: "int list"
  colorPool :: "string list"
  Mode :: GameMode
  State :: GameState
  Score :: int
  TotalPoints :: int
  Combo :: int
  MaxCombo :: int
  Lives :: int
  TimeLeft :: rat
  Target :: int
  Difficulty :: int
  WrongAnswers :: int
  CurrentQuestion :: "StroopQuestion option"
  StartTime :: int

text \<open>The constructor \<open>GameSession(GameMode mode)\<close> with the field initialisers.\<close>

definition new_GameSession :: "GameMode \<Rightarrow> GameSession" where
  "new_GameSession mode =
     \<lparr> reactions = [],
       colorPool = GetColorPool 1,
       Mode = mode,
       State = Idle,
       Score = 0,
       TotalPoints = 0,
       Combo = 0,
       MaxCombo = 0,
       Lives = (if mode = Endless then 3 else - 1),
       TimeLeft = (if mode = Survival then 60 else - 1),
       Target = (if mode = SpeedRun then 50 else - 1),
       Difficulty = 1,
       WrongAnswers = 0,
       CurrentQuestion = None,
       StartTime = 0 \<rparr>"

definition Start :: "GameSession \<Rightarrow> int \<Rightarrow> GameSession" where
  \<comment> \<open>the second argument is what \<open>DateTime.Now\<close> reads\<close>
  "Start s now = s\<lparr>State := Active, StartTime := now\<rparr>"

subsection \<open>The question generator\<close>

text \<open>
  The random generator is a list of integers, one for each call in the order of
  the calls. \<open>Next(maxValue)\<close> returns a number below \<open>maxValue\<close> (0 when \<open>maxValue\<close>
  is 0) and \<open>Next()\<close> a number below \<open>int.MaxValue\<close>: the model reduces the next number
  of the list, so every list is a generator and every behaviour of a generator is that
  of some list. A list that ends before the method does gives \<open>RandomExhausted\<close>: the
  method has not returned within the numbers supplied. The filling loop of
  \<open>NextQuestion\<close> has no bound of its own: it runs until the generator hits a colour
  that is not among the options.
\<close>

datatype failure = ArgumentOutOfRange | IllegalArgument | RandomExhausted

definition Random_Next :: "nat \<Rightarrow> int list \<Rightarrow> (nat \<times> int list) option" where
  "Random_Next maxValue rs =
     (case rs of
        [] \<Rightarrow> None
      | r # rs' \<Rightarrow> Some (if maxValue = 0 then 0 else nat (r mod int maxValue), rs'))"

definition OrderBy_random :: "string list \<Rightarrow> int list \<Rightarrow> (string list \<times> int list) option" where
  \<comment> \<open>\<open>xs.OrderBy(_ => _random.Next()).ToList()\<close>: one key for each element, in the order of
      the elements, then a stable sort by the keys\<close>
  "OrderBy_random xs rs =
     (if length rs < length xs then None
      else Some (map snd (sort_key fst (zip (map (\<lambda>r. r mod 2147483647) (take (length xs) rs)) xs)),
                 drop (length xs) rs))"

fun fill_options :: "string list \<Rightarrow> int list \<Rightarrow> (string list \<times> int list) option" where
  \<comment> \<open>\<open>while (options.Count < 4) { filler = ...; if (!options.Contains(filler)) options.Add(filler); }\<close>\<close>
  "fill_options options [] = (if length options < 4 then None else Some (options, []))"
| "fill_options options (r # rs) =
     (if length options < 4
      then (let filler = Keys ! nat (r mod int (length Colors))
            in fill_options (if filler \<in> set options then options else options @ [filler]) rs)
      else Some (options, r # rs))"

definition pick_textWord :: "string list \<Rightarrow> int list \<Rightarrow> (string \<times> int list) option" where
  "pick_textWord wordCandidates rs =
     (if length wordCandidates > 0
      then (case Random_Next (length wordCandidates) rs of
              None \<Rightarrow> None
            | Some (j, rs') \<Rightarrow> Some (wordCandidates ! j, rs'))
      else Some (''Black'', rs))"

definition NextQuestion ::
  "GameSession \<Rightarrow> int list \<Rightarrow> failure + (StroopQuestion option \<times> GameSession \<times> int list)" where
  "NextQuestion s rs =
     (if State s \<noteq> Active then Inr (None, s, rs)
      else
        (case Random_Next (length (colorPool s)) rs of
           None \<Rightarrow> Inl RandomExhausted
         | Some (i, rs1) \<Rightarrow>
             if length (colorPool s) \<le> i then Inl ArgumentOutOfRange
             else
               (let fontColor = colorPool s ! i;
                    wordCandidates = filter (\<lambda>c. c \<noteq> fontColor) (colorPool s)
                in (case pick_textWord wordCandidates rs1 of
                      None \<Rightarrow> Inl RandomExhausted
                    | Some (textWord, rs2) \<Rightarrow>
                        (case OrderBy_random
                                (filter (\<lambda>c. c \<noteq> fontColor \<and> c \<noteq> textWord) (colorPool s)) rs2 of
                           None \<Rightarrow> Inl RandomExhausted
                         | Some (distractors, rs3) \<Rightarrow>
                             (case fill_options (fontColor # take 3 distractors) rs3 of
                                None \<Rightarrow> Inl RandomExhausted
                              | Some (options, rs4) \<Rightarrow>
                                  (case OrderBy_random options rs4 of
                                     None \<Rightarrow> Inl RandomExhausted
                                   | Some (options', rs5) \<Rightarrow>
                                       (let q = \<lparr> TextWord = ToUpper textWord,
                                                  FontColorName = fontColor,
                                                  FontColorHex =
                                                    (case map_of Colors fontColor of
                                                       Some hex \<Rightarrow> hex
                                                     | None \<Rightarrow> ''#888''),
                                                  Options = options' \<rparr>
                                        in Inr (Some q, s\<lparr>CurrentQuestion := Some q\<rparr>, rs5)))))))))"

subsection \<open>Answers\<close>

definition ScaleDifficulty :: "GameSession \<Rightarrow> GameSession" where
  "ScaleDifficulty s =
     (let s' = s\<lparr>Difficulty :=
                  (if Score s \<ge> 40 then 5
                   else if Score s \<ge> 30 then 4
                   else if Score s \<ge> 20 then 3
                   else if Score s \<ge> 10 then 2
                   else 1)\<rparr>
      in s'\<lparr>colorPool := GetColorPool (Difficulty s')\<rparr>)"

text \<open>The two branches of \<open>if (correct)\<close> in \<open>SubmitAnswer\<close>; the first also returns
  \<open>pointsEarned\<close>.\<close>

definition answer_correct :: "GameSession \<Rightarrow> int \<Rightarrow> int \<times> GameSession" where
  "answer_correct s reactionTimeMs =
     (let s1 = s\<lparr>Score := wrap32 (Score s + 1)\<rparr>;
          s2 = s1\<lparr>Combo := wrap32 (Combo s1 + 1)\<rparr>;
          s3 = s2\<lparr>MaxCombo := max (MaxCombo s2) (Combo s2)\<rparr>;
          pointsEarned = CalculatePoints reactionTimeMs (Combo s3) (Difficulty s3);
          s4 = s3\<lparr>TotalPoints := wrap32 (TotalPoints s3 + pointsEarned)\<rparr>;
          s5 = (if Mode s4 = Survival then s4\<lparr>TimeLeft := dadd (TimeLeft s4) 3\<rparr> else s4);
          s6 = (if trem (Score s5) 5 = 0 then ScaleDifficulty s5 else s5)
      in (pointsEarned, s6))"

definition answer_wrong :: "GameSession \<Rightarrow> GameSession" where
  "answer_wrong s =
     (let s1 = s\<lparr>Combo := 0\<rparr>;
          s2 = s1\<lparr>WrongAnswers := wrap32 (WrongAnswers s1 + 1)\<rparr>
      in case Mode s2 of
           Endless \<Rightarrow>
             (let s3 = s2\<lparr>Lives := wrap32 (Lives s2 - 1)\<rparr>
              in if Lives s3 \<le> 0 then s3\<lparr>State := Finished\<rparr> else s3)
         | Survival \<Rightarrow>
             (let s3 = s2\<lparr>TimeLeft := max 0 (dsub (TimeLeft s2) 3)\<rparr>
              in if TimeLeft s3 \<le> 0 then s3\<lparr>State := Finished\<rparr> else s3)
         | SpeedRun \<Rightarrow> s2\<lparr>TotalPoints := max 0 (wrap32 (TotalPoints s2 - 5))\<rparr>)"

text \<open>
  The \<open>Dictionary<string, object>\<close> that \<open>SubmitAnswer\<close> returns is an association
  list. \<open>Math.Round(TimeLeft, 1)\<close> scales by ten, rounds ties to even and scales back.
\<close>

datatype object = OBool bool | OInt int | ODouble rat | OString string

definition Math_Round1 :: "rat \<Rightarrow> rat" where
  "Math_Round1 x = ddiv (d_of_int (Math_Round (dmul x 10))) 10"

definition SubmitAnswer ::
  "GameSession \<Rightarrow> string \<Rightarrow> int \<Rightarrow> (string \<times> object) list \<times> GameSession" where
  "SubmitAnswer s selectedColor reactionTimeMs =
     (case (if State s \<noteq> Active then None else CurrentQuestion s) of
        None \<Rightarrow> ([(''error'', OString ''No active question'')], s)
      | Some q \<Rightarrow>
          (let s1 = s\<lparr>reactions := reactions s @ [reactionTimeMs]\<rparr>;
               correct = Equals_OrdinalIgnoreCase (FontColorName q) selectedColor;
               (pointsEarned, s2) =
                  (if correct then answer_correct s1 reactionTimeMs else (0, answer_wrong s1));
               s3 = (if Mode s2 = SpeedRun \<and> Score s2 \<ge> Target s2
                     then s2\<lparr>State := Finished\<rparr> else s2)
           in ([(''correct'', OBool correct),
                (''pointsEarned'', OInt pointsEarned),
                (''totalPoints'', OInt (TotalPoints s3)),
                (''score'', OInt (Score s3)),
                (''combo'', OInt (Combo s3)),
                (''maxCombo'', OInt (MaxCombo s3)),
                (''lives'', OInt (Lives s3)),
                (''timeLeft'', ODouble (Math_Round1 (TimeLeft s3))),
                (''isActive'', OBool (State s3 = Active))], s3)))"

subsection \<open>The final report\<close>

text \<open>
  \<open>GetFinalReport\<close> assigns no field of the session; it reads the session and the
  clock. \<open>now\<close> is what \<open>DateTime.Now\<close> reads during the call. \<open>TotalSeconds\<close> divides
  the ticks by \<open>10^7\<close>; \<open>Average\<close> divides the sum of the \<open>long\<close> entries by their count.
  The entries are the \<open>int\<close> arguments of \<open>SubmitAnswer\<close> and a list holds fewer than
  \<open>2^31\<close> of them, so the sum stays within \<open>long\<close>.
\<close>

definition GetFinalReport :: "GameSession \<Rightarrow> int \<Rightarrow> SessionResult" where
  "GetFinalReport s now =
     (let elapsed = ddiv (d_of_int (now - StartTime s)) 10000000;
          avgRT = (if length (reactions s) > 0
                   then ddiv (d_of_int (sum_list (reactions s))) (d_of_int (int (length (reactions s))))
                   else 0);
          totalAnswers = wrap32 (Score s + WrongAnswers s)
      in \<lparr> ResultMode = Mode s,
           ResultTotalPoints = TotalPoints s,
           CorrectAnswers = Score s,
           ResultWrongAnswers = WrongAnswers s,
           ResultMaxCombo = MaxCombo s,
           AvgReactionMs = avgRT,
           FastestReaction =
             (if length (reactions s) > 0
              then d_of_int (fold min (tl (reactions s)) (hd (reactions s))) else 0),
           SlowestReaction =
             (if length (reactions s) > 0
              then d_of_int (fold max (tl (reactions s)) (hd (reactions s))) else 0),
           ElapsedSeconds = elapsed,
           Accuracy =
             (if totalAnswers > 0
              then ddiv (dmul (d_of_int (Score s)) 100) (d_of_int totalAnswers) else 0),
           Rating = CalculateRating avgRT (Score s),
           CoinsEarned = CalculateCoins (TotalPoints s),
           StarsEarned = CalculateStars (Score s) \<rparr>)"

subsection \<open>Runs of a session\<close>

text \<open>
  What a caller can do with a session, and the session after a sequence of calls. An
  exception in \<open>NextQuestion\<close> leaves the session as it was: the method assigns
  \<open>CurrentQuestion\<close> in its last statement only.
\<close>

datatype call = Call_Start int | Call_NextQuestion "int list" | Call_SubmitAnswer string int

fun after_call :: "GameSession \<Rightarrow> call \<Rightarrow> GameSession" where
  "after_call s (Call_Start now) = Start s now"
| "after_call s (Call_NextQuestion rs) =
     (case NextQuestion s rs of Inl _ \<Rightarrow> s | Inr (_, s', _) \<Rightarrow> s')"
| "after_call s (Call_SubmitAnswer selectedColor reactionTimeMs) =
     snd (SubmitAnswer s selectedColor reactionTimeMs)"

fun run :: "GameSession \<Rightarrow> call list \<Rightarrow> GameSession" where
  "run s [] = s"
| "run s (c # cs) = run (after_call s c) cs"

section \<open>The Java question generator\<close>

text \<open>
  \<open>StroopValidator.generateQuestion\<close>. \<open>nextInt(bound)\<close> throws on a bound that is
  not positive. \<open>Collections.shuffle\<close> walks the list from its last position down to
  the second and swaps each position with a random one at or below it; it draws from
  a generator of its own, which the model merges into the one list of numbers.
\<close>

record StroopQuestion_java =
  textWord :: string
  fontColorName :: string
  fontColorHex :: string
  options :: "string list"
  timestamp :: int

definition nextInt :: "nat \<Rightarrow> int list \<Rightarrow> failure + (nat \<times> int list)" where
  "nextInt bound rs =
     (if bound = 0 then Inl IllegalArgument
      else case rs of
             [] \<Rightarrow> Inl RandomExhausted
           | r # rs' \<Rightarrow> Inr (nat (r mod int bound), rs'))"

definition swap :: "'a list \<Rightarrow> nat \<Rightarrow> nat \<Rightarrow> 'a list" where
  "swap l i j = l[i := l ! j, j := l ! i]"

fun shuffle_from :: "nat \<Rightarrow> string list \<Rightarrow> int list \<Rightarrow> (string list \<times> int list) option" where
  \<comment> \<open>\<open>for (int i = size; i > 1; i--) swap(list, i - 1, rnd.nextInt(i));\<close>\<close>
  "shuffle_from 0 l rs = Some (l, rs)"
| "shuffle_from (Suc 0) l rs = Some (l, rs)"
| "shuffle_from (Suc (Suc n)) l [] = None"
| "shuffle_from (Suc (Suc n)) l (r # rs) =
     shuffle_from (Suc n) (swap l (Suc n) (nat (r mod int (Suc (Suc n))))) rs"

definition Collections_shuffle :: "string list \<Rightarrow> int list \<Rightarrow> (string list \<times> int list) option" where
  "Collections_shuffle l rs = shuffle_from (length l) l rs"

definition generateQuestion ::
  "string list \<Rightarrow> int \<Rightarrow> int list \<Rightarrow> failure + (StroopQuestion_java \<times> int list)" where
  \<comment> \<open>the second argument is what \<open>System.currentTimeMillis()\<close> reads in the constructor
      of the question\<close>
  "generateQuestion pool now rs =
     (case nextInt (length pool) rs of
        Inl f \<Rightarrow> Inl f
      | Inr (i, rs1) \<Rightarrow>
          (let fontColor = pool ! i;
               wordCandidates = filter (\<lambda>c. c \<noteq> fontColor) pool
           in (case (if wordCandidates = [] then Inr (''Black'', rs1)
                     else (case nextInt (length wordCandidates) rs1 of
                             Inl f \<Rightarrow> Inl f
                           | Inr (j, rs') \<Rightarrow> Inr (wordCandidates ! j, rs'))) of
                 Inl f \<Rightarrow> Inl f
               | Inr (word, rs2) \<Rightarrow>
                   (case Collections_shuffle
                           (filter (\<lambda>c. c \<noteq> fontColor \<and> c \<noteq> word) pool) rs2 of
                      None \<Rightarrow> Inl RandomExhausted
                    | Some (distractors, rs3) \<Rightarrow>
                        (case fill_options (fontColor # take 3 distractors) rs3 of
                           None \<Rightarrow> Inl RandomExhausted
                         | Some (opts, rs4) \<Rightarrow>
                             (case Collections_shuffle opts rs4 of
                                None \<Rightarrow> Inl RandomExhausted
                              | Some (opts', rs5) \<Rightarrow>
                                  Inr (\<lparr> textWord = ToUpper word,
                                          fontColorName = fontColor,
                                          fontColorHex =
                                            (case map_of Colors fontColor of
                                               Some hex \<Rightarrow> hex
                                             | None \<Rightarrow> ''#888''),
                                          options = opts',
                                          timestamp = now \<rparr>, rs5)))))))"

definition getColorPoolForDifficulty :: "int \<Rightarrow> failure + string list" where
  \<comment> \<open>\<open>subList(0, count)\<close> throws on a negative \<open>count\<close>\<close>
  "getColorPoolForDifficulty difficulty =
     (let count = min (int (length Keys)) (wrap32 (4 + wrap32 (wrap32 (difficulty - 1) * 2)))
      in if count < 0 then Inl IllegalArgument else Inr (take (nat count) Keys))"

section \<open>The C++ leaderboard ranker\<close>

record PlayerScore =
  username :: string
  mode :: string
  totalPoints :: int
  correctAnswers :: int
  maxCombo :: int
  avgReactionMs :: rat
  elapsedSeconds :: rat
  rating :: string

text \<open>\<open>RankEntry\<close>; the four members it shares with \<open>PlayerScore\<close> carry the prefix
  \<open>entry\<close> here.\<close>

record RankEntry =
  rank :: int
  entry_username :: string
  entry_totalPoints :: int
  entry_avgReactionMs :: rat
  entry_rating :: string
  percentile :: rat

definition higher_ranked :: "PlayerScore \<Rightarrow> PlayerScore \<Rightarrow> bool" where
  \<comment> \<open>the comparison passed to \<open>std::sort\<close> in \<open>getRankings\<close>\<close>
  "higher_ranked a b =
     (if totalPoints a \<noteq> totalPoints b then totalPoints a > totalPoints b
      else avgReactionMs a < avgReactionMs b)"

text \<open>
  The order as the specification words it: more points first, and among equal points
  the lower average reaction time first. \<open>ranks_no_lower a b\<close> says that \<open>a\<close> may
  stand before \<open>b\<close> in a ranking.
\<close>

definition ranks_no_lower :: "PlayerScore \<Rightarrow> PlayerScore \<Rightarrow> bool" where
  "ranks_no_lower a b =
     (totalPoints b < totalPoints a
      \<or> (totalPoints a = totalPoints b \<and> avgReactionMs a \<le> avgReactionMs b))"

text \<open>
  \<open>std::sort\<close> orders a range by a comparison and leaves open how it arranges elements
  that the comparison does not separate. The model is a sort by insertion; the theorems
  about \<open>getRankings\<close> use only that the result is ordered by the comparison and
  rearranges the input, which every implementation of \<open>std::sort\<close> guarantees.
\<close>

fun insert_sorted :: "('a \<Rightarrow> 'a \<Rightarrow> bool) \<Rightarrow> 'a \<Rightarrow> 'a list \<Rightarrow> 'a list" where
  "insert_sorted before x [] = [x]"
| "insert_sorted before x (y # ys) =
     (if before y x then y # insert_sorted before x ys else x # y # ys)"

definition std_sort :: "('a \<Rightarrow> 'a \<Rightarrow> bool) \<Rightarrow> 'a list \<Rightarrow> 'a list" where
  "std_sort before xs = foldr (insert_sorted before) xs []"

definition getRankings :: "PlayerScore list \<Rightarrow> string \<Rightarrow> RankEntry list" where
  "getRankings scores modeFilter =
     (let filtered = std_sort higher_ranked
                       (filter (\<lambda>s. modeFilter = [] \<or> mode s = modeFilter) scores);
          totalPlayers = int (length filtered)
      in map (\<lambda>i.
               (let player = filtered ! i
                in \<lparr> rank = int i + 1,
                     entry_username = username player,
                     entry_totalPoints = totalPoints player,
                     entry_avgReactionMs = avgReactionMs player,
                     entry_rating = rating player,
                     percentile =
                       (if totalPlayers > 1
                        then dmul (ddiv (dsub (d_of_int (totalPlayers - int i)) 1)
                                        (dsub (d_of_int totalPlayers) 1)) 100
                        else 100) \<rparr>))
             [0..<length filtered])"

section \<open>Example data\<close>

text \<open>
  An Endless session that is started, asked for one question (font colour \<open>Red\<close>, word
  \<open>BLUE\<close>) and given three wrong answers; and a SpeedRun session with one correct
  answer, given in lower case.
\<close>

definition example_question :: StroopQuestion where
  "example_question =
     \<lparr> TextWord = ''BLUE'', FontColorName = ''Red'', FontColorHex = ''#ef4444'',
       Options = [''Red'', ''Yellow'', ''Green'', ''Purple''] \<rparr>"

definition endless_three_wrong :: GameSession where
  "endless_three_wrong =
     run (new_GameSession Endless)
       [Call_Start 0, Call_NextQuestion [0, 0, 5, 3, 4, 1, 2, 3, 4],
        Call_SubmitAnswer ''Blue'' 700, Call_SubmitAnswer ''Blue'' 650,
        Call_SubmitAnswer ''Blue'' 800]"

definition speedrun_one_correct :: GameSession where
  "speedrun_one_correct =
     run (new_GameSession SpeedRun)
       [Call_Start 0, Call_NextQuestion [0, 0, 5, 3, 4, 1, 2, 3, 4],
        Call_SubmitAnswer ''red'' 300]"

text \<open>A Survival session with one question and nineteen wrong answers: three seconds
  are left.\<close>

definition survival_three_seconds :: GameSession where
  "survival_three_seconds =
     run (new_GameSession Survival)
       (Call_Start 0 # Call_NextQuestion [0, 0, 5, 3, 4, 1, 2, 3, 4]
          # replicate 19 (Call_SubmitAnswer ''Blue'' 500))"

text \<open>A question of the Java generator over the pool of difficulty 2.\<close>

definition example_question_java :: StroopQuestion_java where
  "example_question_java =
     \<lparr> textWord = ''BLUE'', fontColorName = ''Red'', fontColorHex = ''#ef4444'',
       options = [''Yellow'', ''Purple'', ''Orange'', ''Red''], timestamp = 1700000000000 \<rparr>"

text \<open>The three records of the ranking example of the specification.\<close>

definition example_scores :: "PlayerScore list" where
  "example_scores =
     [\<lparr> username = ''Cipher_Master'', mode = ''endless'', totalPoints = 1240,
         correctAnswers = 42, maxCombo = 15, avgReactionMs = rd (452 / 10),
         elapsedSeconds = rd (1205 / 10), rating = ''Expert'' \<rparr>,
      \<lparr> username = ''Quantum_Mind'', mode = ''endless'', totalPoints = 1240,
         correctAnswers = 55, maxCombo = 22, avgReactionMs = rd (421 / 10),
         elapsedSeconds = rd (1802 / 10), rating = ''Grandmaster'' \<rparr>,
      \<lparr> username = ''Master_Player'', mode = ''endless'', totalPoints = 950,
         correctAnswers = 30, maxCombo = 8, avgReactionMs = 50,
         elapsedSeconds = 75, rating = ''Proficient'' \<rparr>]"

section \<open>Properties of the binary64 rounding\<close>

lemma pow2_powi: "pow2 e = 2 powi e"
  by (simp add: pow2_def power_int_def inverse_eq_divide power_one_over)

lemma pow2_pos: "0 < pow2 e"
  by (simp add: pow2_powi)

lemma pow2_add: "pow2 (a + b) = pow2 a * pow2 b"
  by (simp add: pow2_powi power_int_add)

lemma pow2_diff: "pow2 (a - b) = pow2 a / pow2 b"
  by (simp add: pow2_powi power_int_diff)

lemma pow2_nat: "0 \<le> e \<Longrightarrow> pow2 e = of_int (2 ^ nat e)"
  by (simp add: pow2_def)

lemma pow2_53: "pow2 53 = 9007199254740992"
  by (simp add: pow2_def)

lemma pow2_52: "pow2 52 = 4503599627370496"
  by (simp add: pow2_def)

lemma pow2_less_D: "pow2 a < pow2 b \<Longrightarrow> a < b"
proof (rule ccontr)
  assume l: "pow2 a < pow2 b" and "\<not> a < b"
  then have "b \<le> a" by simp
  then have "pow2 b \<le> pow2 a"
    unfolding pow2_powi by (intro power_int_increasing) auto
  with l show False by simp
qed

lemma ilog2_bounds:
  assumes "0 < a"
  shows "pow2 (ilog2 a) \<le> a \<and> a < pow2 (ilog2 a + 1)"
proof (cases "1 \<le> a")
  case True
  define n where "n = \<lfloor>a\<rfloor>"
  have n1: "1 \<le> n" using True by (simp add: n_def le_floor_iff)
  then have n0: "0 < n" by simp
  have k1: "1 \<le> bitlen n" using n0 by (simp add: bitlen_alt_def)
  have b: "2 ^ nat (bitlen n - 1) \<le> n" "n < 2 ^ nat (bitlen n)"
    using bitlen_bounds [OF n0] by auto
  have e: "ilog2 a = bitlen n - 1" using True by (simp add: ilog2_def n_def)
  have "pow2 (bitlen n - 1) = of_int (2 ^ nat (bitlen n - 1))"
    using k1 by (simp add: pow2_nat)
  also have "\<dots> \<le> of_int n" using b(1) by (simp only: of_int_le_iff)
  also have "\<dots> \<le> a" by (simp add: n_def)
  finally have lo: "pow2 (ilog2 a) \<le> a" by (simp add: e)
  have "n + 1 \<le> 2 ^ nat (bitlen n)" using b(2) by simp
  then have "(of_int (n + 1) :: rat) \<le> of_int (2 ^ nat (bitlen n))"
    by (simp only: of_int_le_iff)
  moreover have "a < of_int (n + 1)" unfolding n_def by (simp, linarith)
  ultimately have "a < of_int (2 ^ nat (bitlen n))" by simp
  also have "\<dots> = pow2 (bitlen n)" using k1 by (simp add: pow2_nat)
  finally have "a < pow2 (ilog2 a + 1)" by (simp add: e)
  with lo show ?thesis by simp
next
  case False
  then have a1: "a < 1" by simp
  define b where "b = 1 / a"
  have b1: "1 < b" using assms a1 by (simp add: b_def)
  define m where "m = \<lceil>b\<rceil> - 1"
  have m0: "0 < m" using b1 by (simp add: m_def less_ceiling_iff)
  have mb: "of_int m < b" "b \<le> of_int m + 1"
    unfolding m_def using ceiling_correct [of b] by auto
  define k where "k = bitlen m"
  have k1: "1 \<le> k" using m0 by (simp add: k_def bitlen_alt_def)
  have bb: "2 ^ nat (k - 1) \<le> m" "m < 2 ^ nat k"
    using bitlen_bounds [OF m0] by (auto simp: k_def)
  have e: "ilog2 a = - k" using False by (simp add: ilog2_def b_def m_def k_def)
  have ab: "a = 1 / b" using assms by (simp add: b_def)
  have "m + 1 \<le> 2 ^ nat k" using bb(2) by simp
  then have "(of_int (m + 1) :: rat) \<le> of_int (2 ^ nat k)" by (simp only: of_int_le_iff)
  with mb(2) have "b \<le> 2 ^ nat k" by simp
  then have "1 / 2 ^ nat k \<le> 1 / b" using b1 by (intro divide_left_mono) auto
  moreover have "pow2 (- k) = 1 / 2 ^ nat k" using k1 by (simp add: pow2_def)
  ultimately have "pow2 (- k) \<le> 1 / b" by simp
  then have lo: "pow2 (ilog2 a) \<le> a" unfolding e using ab by simp
  have "(of_int (2 ^ nat (k - 1)) :: rat) \<le> of_int m" using bb(1) by (simp only: of_int_le_iff)
  then have "(2 :: rat) ^ nat (k - 1) \<le> of_int m" by simp
  with mb(1) have "2 ^ nat (k - 1) < b" by linarith
  then have "1 / b < 1 / 2 ^ nat (k - 1)" using b1 by (simp add: field_simps)
  moreover have "pow2 (- k + 1) = 1 / 2 ^ nat (k - 1)"
    using k1 by (cases "k = 1") (auto simp: pow2_def)
  ultimately have "1 / b < pow2 (- k + 1)" by simp
  then have "a < pow2 (ilog2 a + 1)" unfolding e using ab by simp
  with lo show ?thesis by simp
qed

lemma round_even_bounds: "\<lfloor>x\<rfloor> \<le> round_even x \<and> round_even x \<le> \<lfloor>x\<rfloor> + 1"
  by (simp add: round_even_def Let_def)

lemma round_even_of_int [simp]: "round_even (of_int n) = n"
  by (simp add: round_even_def Let_def)

lemma round_even_err: "\<bar>of_int (round_even x) - x\<bar> \<le> 1 / 2"
proof -
  have "of_int \<lfloor>x\<rfloor> \<le> x" "x < of_int \<lfloor>x\<rfloor> + 1" by linarith+
  then show ?thesis by (auto simp: round_even_def Let_def abs_le_iff)
qed

lemma rd_0 [simp]: "rd 0 = 0"
  by (simp add: rd_def)

lemma rd_nonneg: "0 \<le> x \<Longrightarrow> 0 \<le> rd x"
proof (cases "x = 0")
  case False
  assume "0 \<le> x"
  with False have x: "0 < x" by simp
  define e where "e = ilog2 \<bar>x\<bar> - 52"
  have "0 \<le> x / pow2 e" using x pow2_pos [of e] by simp
  then have "0 \<le> \<lfloor>x / pow2 e\<rfloor>" by simp
  with round_even_bounds [of "x / pow2 e"] have "0 \<le> round_even (x / pow2 e)" by linarith
  then have "0 \<le> of_int (round_even (x / pow2 e)) * pow2 e"
    using pow2_pos [of e] by simp
  then show ?thesis using False by (simp add: rd_def Let_def e_def)
qed simp

lemma rd_nonpos: "x \<le> 0 \<Longrightarrow> rd x \<le> 0"
proof (cases "x = 0")
  case False
  assume "x \<le> 0"
  with False have x: "x < 0" by simp
  define e where "e = ilog2 \<bar>x\<bar> - 52"
  have "x / pow2 e < 0" using x pow2_pos [of e] by (simp add: divide_neg_pos)
  then have "\<lfloor>x / pow2 e\<rfloor> < 0" by (simp add: floor_less_iff)
  with round_even_bounds [of "x / pow2 e"] have "round_even (x / pow2 e) \<le> 0" by linarith
  then have "of_int (round_even (x / pow2 e)) * pow2 e \<le> 0"
    using pow2_pos [of e] by (simp add: mult_le_0_iff)
  then show ?thesis using False by (simp add: rd_def Let_def e_def)
qed simp

lemma rd_exact:
  assumes "\<bar>n\<bar> < 2 ^ 53"
  shows "rd (of_int n * pow2 k) = of_int n * pow2 k"
proof (cases "n = 0")
  case False
  define x where "x = of_int n * pow2 k"
  have x0: "x \<noteq> 0" using False pow2_pos [of k] by (simp add: x_def)
  define e where "e = ilog2 \<bar>x\<bar> - 52"
  have "\<bar>x\<bar> = of_int \<bar>n\<bar> * pow2 k" using pow2_pos [of k] by (simp add: x_def abs_mult)
  also have "\<dots> < of_int (2 ^ 53) * pow2 k"
    using assms pow2_pos [of k] by (intro mult_strict_right_mono) (simp_all only: of_int_less_iff)
  also have "\<dots> = pow2 (53 + k)" by (simp add: pow2_add pow2_53)
  finally have "\<bar>x\<bar> < pow2 (53 + k)" .
  moreover have "pow2 (ilog2 \<bar>x\<bar>) \<le> \<bar>x\<bar>" using ilog2_bounds [of "\<bar>x\<bar>"] x0 by simp
  ultimately have "pow2 (ilog2 \<bar>x\<bar>) < pow2 (53 + k)" by simp
  then have "ilog2 \<bar>x\<bar> < 53 + k" by (rule pow2_less_D)
  then have ek: "0 \<le> k - e" by (simp add: e_def)
  have "x / pow2 e = of_int n * pow2 (k - e)" by (simp add: x_def pow2_diff)
  also have "\<dots> = of_int (n * 2 ^ nat (k - e))" using ek by (simp add: pow2_nat)
  finally have "round_even (x / pow2 e) = n * 2 ^ nat (k - e)" by (simp only: round_even_of_int)
  then have "rd x = of_int (n * 2 ^ nat (k - e)) * pow2 e"
    using x0 by (simp add: rd_def Let_def e_def)
  also have "\<dots> = of_int n * pow2 (k - e) * pow2 e" using ek by (simp add: pow2_nat)
  also have "\<dots> = x" using pow2_pos [of e] by (simp add: x_def pow2_diff)
  finally show ?thesis by (simp add: x_def)
qed simp

lemma rd_of_int: "\<bar>n\<bar> < 2 ^ 53 \<Longrightarrow> rd (of_int n) = of_int n"
  using rd_exact [of n 0] by (simp add: pow2_def)


lemma rd_scaled:
  assumes "x \<noteq> 0"
  shows "\<exists>m e. rd x = of_int m * pow2 e \<and> \<bar>m\<bar> \<le> 2 ^ 53
           \<and> \<bar>rd x - x\<bar> \<le> pow2 e / 2 \<and> pow2 e * 2 ^ 52 \<le> \<bar>x\<bar>"
proof -
  define e where "e = ilog2 \<bar>x\<bar> - 52"
  define y where "y = x / pow2 e"
  define m where "m = round_even y"
  have pe: "0 < pow2 e" by (rule pow2_pos)
  have r: "rd x = of_int m * pow2 e"
    using assms by (simp add: rd_def Let_def e_def y_def m_def)
  have ax: "0 < \<bar>x\<bar>" using assms by simp
  have "pow2 (e + 52) \<le> \<bar>x\<bar>" using ilog2_bounds [OF ax] by (simp add: e_def)
  moreover have "pow2 (e + 52) = pow2 e * 2 ^ 52" by (simp add: pow2_add pow2_52)
  ultimately have lo: "pow2 e * 2 ^ 52 \<le> \<bar>x\<bar>" by simp
  have "\<bar>x\<bar> < pow2 (e + 53)" using ilog2_bounds [OF ax] by (simp add: e_def add.commute)
  moreover have "pow2 (e + 53) = pow2 e * 2 ^ 53" by (simp add: pow2_add pow2_53)
  ultimately have "\<bar>x\<bar> < pow2 e * 2 ^ 53" by simp
  then have "\<bar>x\<bar> / pow2 e < 2 ^ 53" using pe by (simp add: field_simps)
  then have ay: "\<bar>y\<bar> < 2 ^ 53" using pe by (simp add: y_def abs_divide)
  then have "y < of_int (2 ^ 53)" "of_int (- (2 ^ 53)) < y" by (simp_all add: abs_less_iff)
  then have "\<lfloor>y\<rfloor> < 2 ^ 53" "- (2 ^ 53) \<le> \<lfloor>y\<rfloor>"
    by (simp_all only: floor_less_iff le_floor_iff)
  with round_even_bounds [of y] have am: "\<bar>m\<bar> \<le> 2 ^ 53" unfolding m_def by linarith
  have "rd x - x = (of_int m - y) * pow2 e" using pe by (simp add: r y_def algebra_simps)
  then have "\<bar>rd x - x\<bar> = \<bar>of_int m - y\<bar> * pow2 e" using pe by (simp add: abs_mult)
  also have "\<dots> \<le> (1 / 2) * pow2 e"
    using round_even_err [of y] pe by (intro mult_right_mono) (simp_all add: m_def)
  finally have "\<bar>rd x - x\<bar> \<le> pow2 e / 2" by simp
  with r am lo show ?thesis by blast
qed

lemma rd_idem [simp]: "rd (rd x) = rd x"
proof (cases "x = 0")
  case False
  from rd_scaled [OF False] obtain m e where r: "rd x = of_int m * pow2 e" and am: "\<bar>m\<bar> \<le> 2 ^ 53"
    by blast
  consider "\<bar>m\<bar> < 2 ^ 53" | "m = 2 ^ 53" | "m = - (2 ^ 53)" using am by linarith
  then show ?thesis
  proof cases
    case 1
    then show ?thesis using rd_exact [of m e] by (simp add: r)
  next
    case 2
    have "of_int m * pow2 e = of_int 1 * pow2 (53 + e)" by (simp add: 2 pow2_add pow2_53)
    then show ?thesis using rd_exact [of 1 "53 + e"] by (simp add: r)
  next
    case 3
    have "of_int m * pow2 e = of_int (- 1) * pow2 (53 + e)" by (simp add: 3 pow2_add pow2_53)
    then show ?thesis using rd_exact [of "- 1" "53 + e"] by (simp add: r)
  qed
qed simp

lemma rd_error: "\<bar>rd x - x\<bar> \<le> \<bar>x\<bar> / 2 ^ 53"
proof (cases "x = 0")
  case False
  from rd_scaled [OF False] obtain m e
    where "\<bar>rd x - x\<bar> \<le> pow2 e / 2" and "pow2 e * 2 ^ 52 \<le> \<bar>x\<bar>" by blast
  then show ?thesis by (simp add: field_simps)
qed simp

lemma floor_rd_div_100:
  assumes "0 \<le> n" "n < 2 ^ 31"
  shows "\<lfloor>rd (of_int n / 100)\<rfloor> = n div 100"
proof (cases "n mod 100 = 0")
  case True
  then obtain k where k: "n = 100 * k" by (auto simp: mod_eq_0_iff_dvd)
  have "rd (of_int n / 100) = rd (of_int k)" by (simp add: k)
  also have "\<dots> = of_int k" using assms by (intro rd_of_int) (simp add: k)
  finally show ?thesis by (simp add: k)
next
  case False
  define q :: rat where "q = of_int n / 100"
  define k where "k = n div 100"
  define r where "r = n mod 100"
  have n: "n = 100 * k + r" by (simp add: k_def r_def)
  have "0 \<le> r" "r < 100" by (simp_all add: r_def)
  with False have r: "1 \<le> r" "r \<le> 99" by (simp_all add: r_def)
  have q: "q = of_int k + of_int r / 100" by (simp add: q_def n)
  have "(of_int 1 :: rat) \<le> of_int r" "(of_int r :: rat) \<le> of_int 99"
    using r by (simp_all only: of_int_le_iff)
  then have qb: "of_int k + 1 / 100 \<le> q" "q \<le> of_int k + 99 / 100" by (simp_all add: q)
  have "(of_int 0 :: rat) \<le> of_int n" "(of_int n :: rat) < of_int (2 ^ 31)"
    using assms by (simp_all only: of_int_le_iff of_int_less_iff)
  then have q0: "0 \<le> q" "q < 2 ^ 31" by (simp_all add: q_def)
  have "\<bar>rd q - q\<bar> \<le> q / 2 ^ 53" using rd_error [of q] q0 by simp
  also have "\<dots> < 1 / 100" using q0 by simp
  finally have "\<bar>rd q - q\<bar> < 1 / 100" .
  with qb have "of_int k \<le> rd q" "rd q < of_int k + 1" by linarith+
  then have "\<lfloor>rd q\<rfloor> = k" by (simp add: floor_unique)
  then show ?thesis by (simp add: q_def k_def)
qed

section \<open>The example sessions, evaluated\<close>

lemmas generator_defs = new_GameSession_def Start_def NextQuestion_def Random_Next_def
  GetColorPool_def Keys_def Colors_def wrap32_def pick_textWord_def OrderBy_random_def
  ToUpper_def ToUpper_char_def char_of_def bit_0 Let_def

lemma endless_three_wrong_eq:
  "endless_three_wrong =
     (new_GameSession Endless)
       \<lparr>reactions := [700, 650, 800], State := Finished, Lives := 0, WrongAnswers := 3,
        CurrentQuestion := Some
          \<lparr>TextWord = ''BLUE'', FontColorName = ''Red'', FontColorHex = ''#ef4444'',
           Options = [''Red'', ''Yellow'', ''Green'', ''Purple'']\<rparr>\<rparr>"
  by (simp add: endless_three_wrong_def generator_defs SubmitAnswer_def
      Equals_OrdinalIgnoreCase_def answer_wrong_def)

section \<open>Misuse of a session that is not active\<close>

text \<open>
  C7. \<open>SubmitAnswer\<close> on a session whose state is not \<open>Active\<close> (before \<open>Start\<close>, or
  after the session has finished) returns the dictionary with the single key
  \<open>error\<close> and leaves every field of the session as it was. On an active session with
  a question the returned dictionary has no key \<open>error\<close>, so the failure can be told
  from every regular outcome.
\<close>

theorem SubmitAnswer_inactive_session:
  "(State s \<noteq> Active \<longrightarrow>
      SubmitAnswer s selectedColor reactionTimeMs
        = ([(''error'', OString ''No active question'')], s))
   \<and> (State s' = Active \<and> CurrentQuestion s' = Some q \<longrightarrow>
        map_of (fst (SubmitAnswer s' selectedColor' reactionTimeMs')) ''error'' = None)"
  by (simp add: SubmitAnswer_def Let_def split: prod.splits)

theorem SubmitAnswer_inactive_session_witness:
  "State (new_GameSession Endless) \<noteq> Active
   \<and> SubmitAnswer (new_GameSession Endless) ''Red'' 300
        = ([(''error'', OString ''No active question'')], new_GameSession Endless)
   \<and> State endless_three_wrong \<noteq> Active
   \<and> SubmitAnswer endless_three_wrong ''Red'' 300
        = ([(''error'', OString ''No active question'')], endless_three_wrong)"
  using SubmitAnswer_inactive_session [of "new_GameSession Endless" "''Red''" 300]
    SubmitAnswer_inactive_session [of endless_three_wrong "''Red''" 300]
  by (simp add: endless_three_wrong_eq) (simp add: new_GameSession_def)

text \<open>
  C10. \<open>NextQuestion\<close> on a session whose state is not \<open>Active\<close> returns \<open>null\<close>,
  draws no random number and changes no field of the session.
\<close>

theorem NextQuestion_inactive_session:
  "State s \<noteq> Active \<Longrightarrow> NextQuestion s rs = Inr (None, s, rs)"
  by (simp add: NextQuestion_def)

theorem NextQuestion_inactive_session_witness:
  "State (new_GameSession Survival) \<noteq> Active
   \<and> NextQuestion (new_GameSession Survival) [3, 1, 4]
        = Inr (None, new_GameSession Survival, [3, 1, 4])"
  using NextQuestion_inactive_session [of "new_GameSession Survival" "[3, 1, 4]"]
  by (simp add: new_GameSession_def)

section \<open>The rating cascade\<close>

lemma rating_cpp: "getPerformanceRating avg c = rating_spec avg c"
  by (simp only: getPerformanceRating_def rating_spec_def rating_clauses_def first_match.simps)

lemma rating_cs: "CalculateRating avg c = rating_spec avg c"
  by (simp only: CalculateRating_def rating_spec_def rating_clauses_def first_match.simps)

lemma rating_java:
  "getPerformanceRating_java rts c = rating_spec (getAverageReactionTime rts) c"
  by (simp only: getPerformanceRating_java_def rating_spec_def rating_clauses_def
      first_match.simps Let_def)

lemma rating_example: "rating_spec 450 45 = ''Grandmaster''"
  by (simp add: rating_spec_def rating_clauses_def)

text \<open>
  C4. The rating of the C++, the C# and the Java engine is the first match in the
  table of clauses, taken in the order Legendary, Grandmaster, Master, Expert,
  Advanced, Proficient, Intermediate, Beginner, with Trainee when no clause matches;
  a clause matches when the average reaction time is below its bound and the count
  of correct answers is above its minimum, both at once. An average of 450 ms with
  45 correct answers is rated Grandmaster.
\<close>

theorem rating_is_first_match:
  "getPerformanceRating avg correctCount = rating_spec avg correctCount
   \<and> CalculateRating avg correctCount = rating_spec avg correctCount
   \<and> getPerformanceRating_java rts correctCount
        = rating_spec (getAverageReactionTime rts) correctCount
   \<and> getPerformanceRating 450 45 = ''Grandmaster''
   \<and> CalculateRating 450 45 = ''Grandmaster''"
  by (simp only: rating_cpp rating_cs rating_java rating_example simp_thms)

section \<open>The final report\<close>

text \<open>
  C3, as the claim states it, fails: the report reads the clock at every call. The
  Endless session finished by three wrong answers reports one elapsed second when the
  clock stands one second after the start and two when it stands two seconds after.
\<close>

theorem GetFinalReport_twice_differs:
  "State endless_three_wrong = Finished
   \<and> ElapsedSeconds (GetFinalReport endless_three_wrong 10000000) = 1
   \<and> ElapsedSeconds (GetFinalReport endless_three_wrong 20000000) = 2
   \<and> GetFinalReport endless_three_wrong 10000000 \<noteq> GetFinalReport endless_three_wrong 20000000"
proof -
  have s: "State endless_three_wrong = Finished" "StartTime endless_three_wrong = 0"
    by (simp_all add: endless_three_wrong_eq new_GameSession_def)
  have e1: "ddiv (d_of_int 10000000) 10000000 = 1"
    using rd_of_int [of 10000000] rd_of_int [of 1] by (simp add: ddiv_def d_of_int_def)
  have e2: "ddiv (d_of_int 20000000) 10000000 = 2"
    using rd_of_int [of 20000000] rd_of_int [of 2] by (simp add: ddiv_def d_of_int_def)
  have e: "ElapsedSeconds (GetFinalReport endless_three_wrong 10000000) = 1"
    "ElapsedSeconds (GetFinalReport endless_three_wrong 20000000) = 2"
    by (simp_all add: GetFinalReport_def Let_def s e1 e2)
  have "GetFinalReport endless_three_wrong 10000000 \<noteq> GetFinalReport endless_three_wrong 20000000"
  proof
    assume "GetFinalReport endless_three_wrong 10000000 = GetFinalReport endless_three_wrong 20000000"
    then have "ElapsedSeconds (GetFinalReport endless_three_wrong 10000000)
      = ElapsedSeconds (GetFinalReport endless_three_wrong 20000000)" by (rule arg_cong)
    with e show False by simp
  qed
  with e s show ?thesis by simp
qed

lemma TotalSeconds_strict_mono:
  fixes x y :: int
  assumes "0 \<le> x" "x < y" "y < 2 ^ 52"
  shows "ddiv (d_of_int x) 10000000 < ddiv (d_of_int y) 10000000"
proof -
  let ?a = "of_int x :: rat" and ?b = "of_int y :: rat"
  have ab: "0 \<le> ?a" "?a + 1 \<le> ?b" "?b < 4503599627370496"
  proof -
    show "0 \<le> ?a" using assms(1) by simp
    have "x + 1 \<le> y" using assms(2) by simp
    then have "(of_int (x + 1) :: rat) \<le> of_int y" by (simp only: of_int_le_iff)
    then show "?a + 1 \<le> ?b" by simp
    have "(of_int y :: rat) < of_int (2 ^ 52)" using assms(3) by (simp only: of_int_less_iff)
    then show "?b < 4503599627370496" by simp
  qed
  have ex: "d_of_int x = ?a" "d_of_int y = ?b"
    unfolding d_of_int_def using assms by (simp_all add: rd_of_int)
  have e1: "\<bar>rd (?a / 10000000) - ?a / 10000000\<bar> \<le> (?a / 10000000) / 2 ^ 53"
    using rd_error [of "?a / 10000000"] ab(1) by simp
  have e2: "\<bar>rd (?b / 10000000) - ?b / 10000000\<bar> \<le> (?b / 10000000) / 2 ^ 53"
    using rd_error [of "?b / 10000000"] ab(1,2) by simp
  have "?a / 10000000 + (?a / 10000000) / 2 ^ 53 < ?b / 10000000 - (?b / 10000000) / 2 ^ 53"
    using ab by (simp add: field_simps)
  with e1 e2 have "rd (?a / 10000000) < rd (?b / 10000000)" by linarith
  then show ?thesis by (simp add: ddiv_def ex)
qed

text \<open>
  C3, amended. Two calls of \<open>GetFinalReport\<close> on the same session, in any state
  (\<open>Finished\<close> included), return reports that agree in every field but
  \<open>ElapsedSeconds\<close>, so the two reports are identical exactly when their elapsed
  seconds are equal. The elapsed seconds of a report is the \<open>double\<close> quotient of the
  ticks from \<open>StartTime\<close> to the clock reading of that call by \<open>10^7\<close>. When the first
  reading is not before \<open>StartTime\<close>, the clock has advanced between the two calls and
  the second reading is less than \<open>2^52\<close> ticks (about 14 years) after \<open>StartTime\<close>,
  the second report has strictly more elapsed seconds, and the two reports differ.
\<close>

theorem GetFinalReport_same_but_elapsed:
  "GetFinalReport s now1
     = (GetFinalReport s now2)
         \<lparr>ElapsedSeconds := ddiv (d_of_int (now1 - StartTime s)) 10000000\<rparr>
   \<and> ElapsedSeconds (GetFinalReport s now1) = ddiv (d_of_int (now1 - StartTime s)) 10000000
   \<and> (GetFinalReport s now1 = GetFinalReport s now2
        \<longleftrightarrow> ElapsedSeconds (GetFinalReport s now1) = ElapsedSeconds (GetFinalReport s now2))
   \<and> (StartTime s \<le> now1 \<and> now1 < now2 \<and> now2 - StartTime s < 2 ^ 52
        \<longrightarrow> ElapsedSeconds (GetFinalReport s now1) < ElapsedSeconds (GetFinalReport s now2))"
proof -
  have a: "GetFinalReport s now1
     = (GetFinalReport s now2)
         \<lparr>ElapsedSeconds := ddiv (d_of_int (now1 - StartTime s)) 10000000\<rparr>"
    by (simp add: GetFinalReport_def Let_def)
  have b: "\<And>t. ElapsedSeconds (GetFinalReport s t) = ddiv (d_of_int (t - StartTime s)) 10000000"
    by (simp add: GetFinalReport_def Let_def)
  have c: "GetFinalReport s now1 = GetFinalReport s now2
        \<longleftrightarrow> ElapsedSeconds (GetFinalReport s now1) = ElapsedSeconds (GetFinalReport s now2)"
  proof
    assume "GetFinalReport s now1 = GetFinalReport s now2"
    then show "ElapsedSeconds (GetFinalReport s now1) = ElapsedSeconds (GetFinalReport s now2)"
      by (rule arg_cong)
  next
    assume "ElapsedSeconds (GetFinalReport s now1) = ElapsedSeconds (GetFinalReport s now2)"
    then have "ddiv (d_of_int (now1 - StartTime s)) 10000000 = ElapsedSeconds (GetFinalReport s now2)"
      by (simp only: b)
    then have "(GetFinalReport s now2)
         \<lparr>ElapsedSeconds := ddiv (d_of_int (now1 - StartTime s)) 10000000\<rparr> = GetFinalReport s now2"
      by simp
    with a show "GetFinalReport s now1 = GetFinalReport s now2" by simp
  qed
  have d: "StartTime s \<le> now1 \<and> now1 < now2 \<and> now2 - StartTime s < 2 ^ 52
        \<longrightarrow> ElapsedSeconds (GetFinalReport s now1) < ElapsedSeconds (GetFinalReport s now2)"
    unfolding b by (intro impI TotalSeconds_strict_mono) simp_all
  from a b [of now1] c d show ?thesis by blast
qed

theorem GetFinalReport_same_but_elapsed_witness:
  "StartTime endless_three_wrong \<le> 10000000 \<and> (10000000 :: int) < 20000000
   \<and> 20000000 - StartTime endless_three_wrong < 2 ^ 52
   \<and> ElapsedSeconds (GetFinalReport endless_three_wrong 10000000)
        < ElapsedSeconds (GetFinalReport endless_three_wrong 20000000)
   \<and> GetFinalReport endless_three_wrong 10000000 \<noteq> GetFinalReport endless_three_wrong 20000000"
proof -
  have s: "StartTime endless_three_wrong = 0"
    by (simp add: endless_three_wrong_eq new_GameSession_def)
  then have h: "StartTime endless_three_wrong \<le> 10000000 \<and> (10000000 :: int) < 20000000
      \<and> 20000000 - StartTime endless_three_wrong < 2 ^ 52"
    by simp
  note t = GetFinalReport_same_but_elapsed [of endless_three_wrong 10000000 20000000]
  from t h have l: "ElapsedSeconds (GetFinalReport endless_three_wrong 10000000)
        < ElapsedSeconds (GetFinalReport endless_three_wrong 20000000)"
    by blast
  from t have "GetFinalReport endless_three_wrong 10000000 = GetFinalReport endless_three_wrong 20000000
      \<longleftrightarrow> ElapsedSeconds (GetFinalReport endless_three_wrong 10000000)
          = ElapsedSeconds (GetFinalReport endless_three_wrong 20000000)"
    by blast
  with l have "GetFinalReport endless_three_wrong 10000000 \<noteq> GetFinalReport endless_three_wrong 20000000"
    by simp
  with h l show ?thesis by blast
qed

section \<open>Answers in SpeedRun and Survival sessions\<close>

subsection \<open>What an answer does to the session\<close>

lemma wrap32_id: "in_int32 x \<Longrightarrow> wrap32 x = x"
  by (simp add: in_int32_def INT_MIN_def INT_MAX_def wrap32_def)

lemma CalculatePoints_300_1_1: "CalculatePoints 300 1 1 = 30"
  by code_simp

lemma SubmitAnswer_wrong:
  assumes "State s = Active" "CurrentQuestion s = Some q"
    "\<not> Equals_OrdinalIgnoreCase (FontColorName q) c"
  shows "snd (SubmitAnswer s c rt) =
    (let s2 = answer_wrong (s\<lparr>reactions := reactions s @ [rt]\<rparr>)
     in if Mode s2 = SpeedRun \<and> Score s2 \<ge> Target s2 then s2\<lparr>State := Finished\<rparr> else s2)"
  using assms by (simp add: SubmitAnswer_def Let_def)

lemma SubmitAnswer_correct:
  assumes "State s = Active" "CurrentQuestion s = Some q"
    "Equals_OrdinalIgnoreCase (FontColorName q) c"
  shows "snd (SubmitAnswer s c rt) =
    (let s2 = snd (answer_correct (s\<lparr>reactions := reactions s @ [rt]\<rparr>) rt)
     in if Mode s2 = SpeedRun \<and> Score s2 \<ge> Target s2 then s2\<lparr>State := Finished\<rparr> else s2)"
  using assms by (simp add: SubmitAnswer_def Let_def split: prod.splits)

lemma answer_correct_frame:
  "Mode (snd (answer_correct s rt)) = Mode s"
  "State (snd (answer_correct s rt)) = State s"
  "Target (snd (answer_correct s rt)) = Target s"
  "Lives (snd (answer_correct s rt)) = Lives s"
  "Score (snd (answer_correct s rt)) = wrap32 (Score s + 1)"
  "TimeLeft (snd (answer_correct s rt)) = (if Mode s = Survival then dadd (TimeLeft s) 3 else TimeLeft s)"
  by (simp_all add: answer_correct_def ScaleDifficulty_def Let_def)

lemma answer_wrong_frame:
  "Mode (answer_wrong s) = Mode s"
  "Target (answer_wrong s) = Target s"
  "Score (answer_wrong s) = Score s"
  "WrongAnswers (answer_wrong s) = wrap32 (WrongAnswers s + 1)"
  by (simp_all add: answer_wrong_def Let_def split: GameMode.splits)

lemma answer_wrong_SpeedRun:
  "Mode s = SpeedRun \<Longrightarrow> answer_wrong s =
     s\<lparr>Combo := 0, WrongAnswers := wrap32 (WrongAnswers s + 1),
       TotalPoints := max 0 (wrap32 (TotalPoints s - 5))\<rparr>"
  by (simp add: answer_wrong_def Let_def)

lemma answer_wrong_Survival:
  "Mode s = Survival \<Longrightarrow>
     TimeLeft (answer_wrong s) = max 0 (dsub (TimeLeft s) 3)
     \<and> State (answer_wrong s) = (if max 0 (dsub (TimeLeft s) 3) \<le> 0 then Finished else State s)"
  by (simp add: answer_wrong_def Let_def)

lemma question_asked:
  "run (new_GameSession m) (Call_Start 0 # Call_NextQuestion [0, 0, 5, 3, 4, 1, 2, 3, 4] # calls)
   = run ((new_GameSession m)\<lparr>State := Active, CurrentQuestion := Some example_question\<rparr>) calls"
  by (simp add: generator_defs example_question_def)

lemma Red_red: "Equals_OrdinalIgnoreCase ''Red'' ''red''"
  by (simp add: Equals_OrdinalIgnoreCase_def generator_defs)

lemma Red_Blue: "\<not> Equals_OrdinalIgnoreCase ''Red'' ''Blue''"
  by (simp add: Equals_OrdinalIgnoreCase_def generator_defs)

lemma speedrun_one_correct_eq:
  "speedrun_one_correct =
     (new_GameSession SpeedRun)
       \<lparr>reactions := [300], State := Active, Score := 1, TotalPoints := 30,
        Combo := 1, MaxCombo := 1, CurrentQuestion := Some example_question\<rparr>"
proof -
  let ?s = "(new_GameSession SpeedRun)\<lparr>State := Active, CurrentQuestion := Some example_question\<rparr>"
  have "speedrun_one_correct = snd (SubmitAnswer ?s ''red'' 300)"
    by (simp only: speedrun_one_correct_def question_asked, simp only: run.simps after_call.simps)
  also have "\<dots> = snd (answer_correct (?s\<lparr>reactions := reactions ?s @ [300]\<rparr>) 300)"
    using Red_red
    by (subst SubmitAnswer_correct [where q = example_question])
      (simp_all add: example_question_def Let_def answer_correct_frame new_GameSession_def wrap32_def)
  also have "\<dots> = (new_GameSession SpeedRun)
       \<lparr>reactions := [300], State := Active, Score := 1, TotalPoints := 30,
        Combo := 1, MaxCombo := 1, CurrentQuestion := Some example_question\<rparr>"
    by (simp add: answer_correct_def new_GameSession_def Let_def wrap32_def
        CalculatePoints_300_1_1 GetColorPool_def trem_def tdiv_def)
  finally show ?thesis .
qed

lemma d_of_int_exact: "\<bar>n\<bar> < 9007199254740992 \<Longrightarrow> d_of_int n = of_int n"
  using rd_of_int [of n] by (simp add: d_of_int_def)

lemma rd_numeral: "\<bar>numeral w :: int\<bar> < 9007199254740992 \<Longrightarrow> rd (numeral w) = numeral w"
  using rd_of_int [of "numeral w"] by simp

lemma rd_1: "rd 1 = 1"
  using rd_of_int [of 1] by simp

lemma NextQuestion_frame:
  assumes "NextQuestion s rs = Inr (q, s', rs')"
  shows "s' = s\<lparr>CurrentQuestion := CurrentQuestion s'\<rparr>"
  using assms
  by (auto simp: NextQuestion_def Let_def split: if_splits option.splits prod.splits)

lemma NextQuestion_Mode_TimeLeft:
  assumes "NextQuestion s rs = Inr (q, s', rs')"
  shows "Mode s' = Mode s \<and> TimeLeft s' = TimeLeft s"
proof -
  from NextQuestion_frame [OF assms] obtain c where "s' = s\<lparr>CurrentQuestion := c\<rparr>" by blast
  then show ?thesis by simp
qed

lemma SubmitAnswer_Survival_inv:
  assumes "Mode s = Survival" "0 \<le> TimeLeft s"
  shows "Mode (snd (SubmitAnswer s c rt)) = Survival \<and> 0 \<le> TimeLeft (snd (SubmitAnswer s c rt))"
proof (cases "State s = Active \<and> CurrentQuestion s \<noteq> None")
  case False
  then show ?thesis using assms by (auto simp: SubmitAnswer_def)
next
  case True
  then obtain q where q: "State s = Active" "CurrentQuestion s = Some q" by auto
  show ?thesis
  proof (cases "Equals_OrdinalIgnoreCase (FontColorName q) c")
    case True
    have "0 \<le> dadd (TimeLeft s) 3" unfolding dadd_def using assms(2) by (intro rd_nonneg) simp
    then show ?thesis
      using assms by (simp add: SubmitAnswer_correct [OF q True] answer_correct_frame Let_def)
  next
    case False
    show ?thesis
      using assms answer_wrong_Survival [of "s\<lparr>reactions := reactions s @ [rt]\<rparr>"]
      by (simp add: SubmitAnswer_wrong [OF q False] answer_wrong_frame Let_def)
  qed
qed

lemma after_call_Survival_inv:
  assumes "Mode s = Survival" "0 \<le> TimeLeft s"
  shows "Mode (after_call s c) = Survival \<and> 0 \<le> TimeLeft (after_call s c)"
proof (cases c)
  case (Call_Start now)
  then show ?thesis using assms by (simp add: Start_def)
next
  case (Call_NextQuestion rs)
  then show ?thesis using assms
    by (auto split: sum.splits dest: NextQuestion_Mode_TimeLeft)
next
  case (Call_SubmitAnswer c rt)
  then show ?thesis using SubmitAnswer_Survival_inv [OF assms] by simp
qed

lemma run_Survival_inv:
  "Mode s = Survival \<Longrightarrow> 0 \<le> TimeLeft s
   \<Longrightarrow> Mode (run s calls) = Survival \<and> 0 \<le> TimeLeft (run s calls)"
proof (induction calls arbitrary: s)
  case Nil
  then show ?case by simp
next
  case (Cons c calls)
  from after_call_Survival_inv [OF Cons.prems, of c] Cons.IH [of "after_call s c"]
  show ?case by simp
qed

lemma dadd_3_exact:
  assumes "0 \<le> k" "k < 2 ^ 52"
  shows "dadd (of_int k) 3 = of_int (k + 3)"
  using assms rd_of_int [of "k + 3"] by (simp add: dadd_def)

lemma dsub_3_exact:
  assumes "0 \<le> k" "k < 2 ^ 52"
  shows "max 0 (dsub (of_int k) 3) = of_int (max 0 (k - 3))"
proof -
  have "dsub (of_int k) 3 = of_int (k - 3)"
    using assms rd_of_int [of "k - 3"] by (simp add: dsub_def)
  then show ?thesis by (simp add: max_def)
qed

lemma answer_wrong_question: "CurrentQuestion (answer_wrong s) = CurrentQuestion s"
  by (simp add: answer_wrong_def Let_def split: GameMode.splits)

lemma wrong_answers_Survival:
  assumes "Mode s = Survival" "State s = Active" "CurrentQuestion s = Some q"
    "\<not> Equals_OrdinalIgnoreCase (FontColorName q) c"
    "TimeLeft s = of_int k" "3 * int n < k" "k < 2 ^ 52"
  shows "Mode (run s (replicate n (Call_SubmitAnswer c rt))) = Survival
    \<and> State (run s (replicate n (Call_SubmitAnswer c rt))) = Active
    \<and> CurrentQuestion (run s (replicate n (Call_SubmitAnswer c rt))) = Some q
    \<and> TimeLeft (run s (replicate n (Call_SubmitAnswer c rt))) = of_int (k - 3 * int n)"
  using assms
proof (induction n arbitrary: s k)
  case 0
  then show ?case by simp
next
  case (Suc n)
  let ?s1 = "snd (SubmitAnswer s c rt)"
  have k: "0 \<le> k" "3 < k" using Suc.prems(6) by simp_all
  have t: "max 0 (dsub (TimeLeft s) 3) = of_int (k - 3)"
    using dsub_3_exact [of k] k Suc.prems(5,7) by (simp add: max_def)
  have s1: "?s1 = answer_wrong (s\<lparr>reactions := reactions s @ [rt]\<rparr>)"
    using Suc.prems(1-4) by (simp add: SubmitAnswer_wrong answer_wrong_frame Let_def)
  have "Mode ?s1 = Survival" "CurrentQuestion ?s1 = Some q"
    using Suc.prems(1,3) by (simp_all add: s1 answer_wrong_frame answer_wrong_question)
  moreover have "TimeLeft ?s1 = of_int (k - 3)" "State ?s1 = Active"
    using answer_wrong_Survival [of "s\<lparr>reactions := reactions s @ [rt]\<rparr>"] Suc.prems(1,2) t k
    by (simp_all add: s1)
  moreover have "3 * int n < k - 3" "k - 3 < 2 ^ 52" using Suc.prems(6,7) by simp_all
  ultimately have "Mode (run ?s1 (replicate n (Call_SubmitAnswer c rt))) = Survival
    \<and> State (run ?s1 (replicate n (Call_SubmitAnswer c rt))) = Active
    \<and> CurrentQuestion (run ?s1 (replicate n (Call_SubmitAnswer c rt))) = Some q
    \<and> TimeLeft (run ?s1 (replicate n (Call_SubmitAnswer c rt))) = of_int (k - 3 - 3 * int n)"
    using Suc.prems(4) by (intro Suc.IH) simp_all
  then show ?case by (simp add: algebra_simps)
qed

lemma survival_three_seconds_facts:
  "Mode survival_three_seconds = Survival \<and> State survival_three_seconds = Active
   \<and> CurrentQuestion survival_three_seconds = Some example_question
   \<and> TimeLeft survival_three_seconds = 3"
proof -
  let ?s = "(new_GameSession Survival)\<lparr>State := Active, CurrentQuestion := Some example_question\<rparr>"
  have "survival_three_seconds = run ?s (replicate 19 (Call_SubmitAnswer ''Blue'' 500))"
    by (simp only: survival_three_seconds_def question_asked)
  moreover have "\<not> Equals_OrdinalIgnoreCase (FontColorName example_question) ''Blue''"
    using Red_Blue by (simp add: example_question_def)
  ultimately show ?thesis
    using wrong_answers_Survival [of ?s example_question "''Blue''" 60 19 500]
    by (simp add: new_GameSession_def)
qed

subsection \<open>SpeedRun\<close>

text \<open>
  C8, as the claim states it, fails in one point: a wrong answer does not leave the
  accuracy unchanged. The accuracy of the report is the share of correct answers among
  all answers, and a wrong answer is counted in \<open>WrongAnswers\<close> in every mode. The
  SpeedRun session with one correct answer has accuracy 100; after a wrong answer its
  score is still 1 and its accuracy is 50.
\<close>

theorem SpeedRun_wrong_answer_changes_accuracy:
  "Mode speedrun_one_correct = SpeedRun \<and> State speedrun_one_correct = Active
   \<and> Score (snd (SubmitAnswer speedrun_one_correct ''Blue'' 500)) = Score speedrun_one_correct
   \<and> Accuracy (GetFinalReport speedrun_one_correct 0) = 100
   \<and> Accuracy (GetFinalReport (snd (SubmitAnswer speedrun_one_correct ''Blue'' 500)) 0) = 50"
proof -
  let ?s = speedrun_one_correct
  have s: "Mode ?s = SpeedRun" "State ?s = Active" "CurrentQuestion ?s = Some example_question"
    "Score ?s = 1" "WrongAnswers ?s = 0" "Target ?s = 50"
    by (simp_all add: speedrun_one_correct_eq new_GameSession_def)
  have w: "snd (SubmitAnswer ?s ''Blue'' 500) = answer_wrong (?s\<lparr>reactions := reactions ?s @ [500]\<rparr>)"
    using Red_Blue
    by (subst SubmitAnswer_wrong [where q = example_question])
      (simp_all add: s example_question_def Let_def answer_wrong_frame)
  have s': "Score (snd (SubmitAnswer ?s ''Blue'' 500)) = 1"
    "WrongAnswers (snd (SubmitAnswer ?s ''Blue'' 500)) = 1"
    by (simp_all add: w answer_wrong_frame s wrap32_def)
  have a: "ddiv (dmul (d_of_int 1) 100) (d_of_int 1) = 100"
    "ddiv (dmul (d_of_int 1) 100) (d_of_int 2) = 50"
    by (simp_all add: d_of_int_exact ddiv_def dmul_def rd_numeral)
  have "Accuracy (GetFinalReport ?s 0) = 100"
    by (simp add: GetFinalReport_def Let_def s wrap32_def a)
  moreover have "Accuracy (GetFinalReport (snd (SubmitAnswer ?s ''Blue'' 500)) 0) = 50"
    by (simp add: GetFinalReport_def Let_def s' wrap32_def a)
  ultimately show ?thesis using s s' by simp
qed

text \<open>
  C8, amended. In an active SpeedRun session with a question, a wrong answer subtracts
  5 from \<open>TotalPoints\<close>, floored at 0 (for a 32-bit \<open>TotalPoints\<close> of at least
  \<open>INT_MIN + 5\<close>, where the subtraction does not wrap), and leaves \<open>Score\<close>, \<open>Lives\<close>
  and \<open>TimeLeft\<close> unchanged; it adds one to \<open>WrongAnswers\<close>, so the accuracy can
  change (from 100 to 50 in the example above; it stays 0 while \<open>Score\<close> is 0).
  After any answer, correct or wrong, the session is \<open>Finished\<close> when \<open>Score\<close> has
  reached \<open>Target\<close> and \<open>Active\<close> otherwise.
\<close>

theorem SpeedRun_penalty_and_finish:
  "(Mode s = SpeedRun \<and> State s = Active \<and> CurrentQuestion s = Some q
      \<and> \<not> Equals_OrdinalIgnoreCase (FontColorName q) selectedColor
      \<and> INT_MIN + 5 \<le> TotalPoints s \<and> TotalPoints s \<le> INT_MAX
    \<longrightarrow> (let s' = snd (SubmitAnswer s selectedColor reactionTimeMs)
         in TotalPoints s' = max 0 (TotalPoints s - 5) \<and> Score s' = Score s
            \<and> Lives s' = Lives s \<and> TimeLeft s' = TimeLeft s
            \<and> WrongAnswers s' = wrap32 (WrongAnswers s + 1)))
   \<and> (Mode s = SpeedRun \<and> State s = Active \<and> CurrentQuestion s = Some q
    \<longrightarrow> (let s' = snd (SubmitAnswer s selectedColor reactionTimeMs)
         in State s' = (if Score s' \<ge> Target s' then Finished else Active)))"
proof -
  have w: "INT_MIN + 5 \<le> TotalPoints s \<and> TotalPoints s \<le> INT_MAX
    \<Longrightarrow> wrap32 (TotalPoints s - 5) = TotalPoints s - 5"
    by (rule wrap32_id) (simp add: in_int32_def INT_MIN_def INT_MAX_def)
  show ?thesis
  proof (cases "Equals_OrdinalIgnoreCase (FontColorName q) selectedColor")
    case True
    then show ?thesis
      by (simp add: SubmitAnswer_correct answer_correct_frame Let_def)
  next
    case False
    then show ?thesis
      using w by (simp add: SubmitAnswer_wrong answer_wrong_SpeedRun Let_def)
  qed
qed

theorem SpeedRun_penalty_and_finish_witness:
  "Mode speedrun_one_correct = SpeedRun \<and> State speedrun_one_correct = Active
   \<and> CurrentQuestion speedrun_one_correct = Some example_question
   \<and> \<not> Equals_OrdinalIgnoreCase (FontColorName example_question) ''Blue''
   \<and> INT_MIN + 5 \<le> TotalPoints speedrun_one_correct
   \<and> TotalPoints speedrun_one_correct \<le> INT_MAX
   \<and> TotalPoints (snd (SubmitAnswer speedrun_one_correct ''Blue'' 500)) = 25
   \<and> Score (snd (SubmitAnswer speedrun_one_correct ''Blue'' 500)) = 1
   \<and> State (snd (SubmitAnswer speedrun_one_correct ''Blue'' 500)) = Active"
proof -
  let ?s = speedrun_one_correct
  have s: "Mode ?s = SpeedRun" "State ?s = Active" "CurrentQuestion ?s = Some example_question"
    "Score ?s = 1" "TotalPoints ?s = 30" "Target ?s = 50"
    by (simp_all add: speedrun_one_correct_eq new_GameSession_def)
  have n: "\<not> Equals_OrdinalIgnoreCase (FontColorName example_question) ''Blue''"
    using Red_Blue by (simp add: example_question_def)
  have r: "INT_MIN + 5 \<le> TotalPoints ?s" "TotalPoints ?s \<le> INT_MAX"
    by (simp_all add: s INT_MIN_def INT_MAX_def)
  have t: "Target (snd (SubmitAnswer ?s ''Blue'' 500)) = 50"
    using n by (simp add: SubmitAnswer_wrong [where q = example_question] s Let_def answer_wrong_frame)
  from SpeedRun_penalty_and_finish [of ?s example_question "''Blue''" 500] s n r t
  show ?thesis by (simp add: Let_def)
qed

subsection \<open>Survival\<close>

text \<open>
  C9. A Survival session starts with 60 seconds, and after any sequence of calls
  \<open>TimeLeft\<close> is not negative. In an active Survival session with a question a
  correct answer sets \<open>TimeLeft\<close> to \<open>TimeLeft + 3\<close> and a wrong answer to
  \<open>TimeLeft - 3\<close> floored at 0, both in \<open>double\<close> arithmetic, which is exact on the
  whole seconds below \<open>2^52\<close>; a wrong answer that brings \<open>TimeLeft\<close> to 0 sets the
  state to \<open>Finished\<close>.
\<close>

theorem Survival_time_never_negative:
  "TimeLeft (new_GameSession Survival) = 60
   \<and> 0 \<le> TimeLeft (run (new_GameSession Survival) calls)
   \<and> (Mode s = Survival \<and> State s = Active \<and> CurrentQuestion s = Some q \<longrightarrow>
        (let s' = snd (SubmitAnswer s selectedColor reactionTimeMs)
         in if Equals_OrdinalIgnoreCase (FontColorName q) selectedColor
            then TimeLeft s' = dadd (TimeLeft s) 3
            else TimeLeft s' = max 0 (dsub (TimeLeft s) 3)
                 \<and> (TimeLeft s' = 0 \<longrightarrow> State s' = Finished)))
   \<and> (0 \<le> k \<and> k < 2 ^ 52 \<longrightarrow>
        dadd (of_int k) 3 = of_int (k + 3)
        \<and> max 0 (dsub (of_int k) 3) = of_int (max 0 (k - 3)))"
proof -
  have a: "TimeLeft (new_GameSession Survival) = 60" "Mode (new_GameSession Survival) = Survival"
    by (simp_all add: new_GameSession_def)
  then have b: "0 \<le> TimeLeft (run (new_GameSession Survival) calls)"
    using run_Survival_inv [of "new_GameSession Survival" calls] by simp
  have c: "Mode s = Survival \<and> State s = Active \<and> CurrentQuestion s = Some q \<longrightarrow>
        (let s' = snd (SubmitAnswer s selectedColor reactionTimeMs)
         in if Equals_OrdinalIgnoreCase (FontColorName q) selectedColor
            then TimeLeft s' = dadd (TimeLeft s) 3
            else TimeLeft s' = max 0 (dsub (TimeLeft s) 3)
                 \<and> (TimeLeft s' = 0 \<longrightarrow> State s' = Finished))"
  proof (cases "Equals_OrdinalIgnoreCase (FontColorName q) selectedColor")
    case True
    then show ?thesis by (simp add: SubmitAnswer_correct answer_correct_frame Let_def)
  next
    case False
    then show ?thesis
      using answer_wrong_Survival [of "s\<lparr>reactions := reactions s @ [reactionTimeMs]\<rparr>"]
      by (simp add: SubmitAnswer_wrong answer_wrong_frame Let_def)
  qed
  from a(1) b c dadd_3_exact [of k] dsub_3_exact [of k] show ?thesis by blast
qed

theorem Survival_time_never_negative_witness:
  "Mode survival_three_seconds = Survival \<and> State survival_three_seconds = Active
   \<and> CurrentQuestion survival_three_seconds = Some example_question
   \<and> \<not> Equals_OrdinalIgnoreCase (FontColorName example_question) ''Blue''
   \<and> TimeLeft (snd (SubmitAnswer survival_three_seconds ''Blue'' 500)) = 0
   \<and> State (snd (SubmitAnswer survival_three_seconds ''Blue'' 500)) = Finished
   \<and> Equals_OrdinalIgnoreCase (FontColorName example_question) ''red''
   \<and> TimeLeft (snd (SubmitAnswer survival_three_seconds ''red'' 500)) = 6
   \<and> (0::int) \<le> 60 \<and> (60::int) < 2 ^ 52
   \<and> dadd (of_int 60) 3 = of_int (60 + 3)
   \<and> 0 \<le> TimeLeft (run (new_GameSession Survival)
            [Call_Start 0, Call_NextQuestion [0, 0, 5, 3, 4, 1, 2, 3, 4], Call_SubmitAnswer ''Blue'' 500])"
proof -
  let ?s = survival_three_seconds
  have n: "\<not> Equals_OrdinalIgnoreCase (FontColorName example_question) ''Blue''"
    "Equals_OrdinalIgnoreCase (FontColorName example_question) ''red''"
    using Red_Blue Red_red by (simp_all add: example_question_def)
  have d: "max 0 (dsub 3 3) = 0" "dadd 3 3 = 6"
    using dsub_3_exact [of 3] dadd_3_exact [of 3] by simp_all
  from Survival_time_never_negative [of "[Call_Start 0, Call_NextQuestion [0, 0, 5, 3, 4, 1, 2, 3, 4],
      Call_SubmitAnswer ''Blue'' 500]" ?s example_question "''Blue''" 500 60]
    Survival_time_never_negative [of "[]" ?s example_question "''red''" 500 60]
    survival_three_seconds_facts n d
  show ?thesis by (simp add: Let_def)
qed

section \<open>Points for a correct answer\<close>

subsection \<open>The four implementations at two inputs\<close>

lemma tie_product:
  "dmul (dmul (d_of_int 15) (dadd 1 (dmul (d_of_int 1) (rd (1 / 10)))))
     (dadd 1 (dmul (d_of_int 0) (rd (15 / 100)))) = 33 / 2"
  by code_simp

lemma CalculatePoints_1500_1_1: "CalculatePoints 1500 1 1 = 16"
  by code_simp

lemma calculatePoints_1500_1_1: "calculatePoints 1500 1 1 = Some 17"
  by code_simp

lemma calculatePoints_java_1500_1_1: "calculatePoints_java 1500 1 1 = 17"
  by code_simp

lemma js_points_1500_1: "js_points 1500 1 = 17"
  by code_simp

lemma CalculatePoints_300_5_3: "CalculatePoints 300 5 3 = 53"
  by code_simp

lemma calculatePoints_300_5_3: "calculatePoints 300 5 3 = Some 53"
  by code_simp

lemma calculatePoints_java_300_5_3: "calculatePoints_java 300 5 3 = 53"
  by code_simp

lemma js_points_300_5: "js_points 300 5 = 41"
  by code_simp

lemma calculatePoints_300_5_1: "calculatePoints 300 5 1 = Some 41"
  by code_simp

lemma rd_tenth_nonneg: "0 \<le> rd (1 / 10)" "0 \<le> rd (15 / 100)"
  by (rule rd_nonneg, simp)+

lemma multiplier_nonneg: "0 \<le> n \<Longrightarrow> 0 \<le> y \<Longrightarrow> 0 \<le> dadd 1 (dmul (d_of_int n) y)"
  unfolding dadd_def dmul_def d_of_int_def
  by (intro rd_nonneg add_nonneg_nonneg mult_nonneg_nonneg) simp_all

lemma product_nonneg:
  "0 \<le> a \<Longrightarrow> 0 \<le> x \<Longrightarrow> 0 \<le> y \<Longrightarrow> 0 \<le> dmul (dmul (d_of_int a) x) y"
  unfolding dmul_def d_of_int_def
  by (intro rd_nonneg mult_nonneg_nonneg) simp_all

lemma std_round_nonneg: "0 \<le> x \<Longrightarrow> std_round x = Math_round x"
  by (simp add: std_round_def Math_round_def)

lemma tdiv_100: "tdiv d 100 = (if 0 \<le> d then d div 100 else - ((- d) div 100))"
  by (simp add: tdiv_def)

lemma speedBonus_in_int32:
  assumes "in_int32 d"
  shows "in_int32 (tdiv d 100)" "in_int32 (10 + max 0 (tdiv d 100))" "0 \<le> 10 + max 0 (tdiv d 100)"
  using assms by (auto simp: in_int32_def INT_MIN_def INT_MAX_def tdiv_100 max_def)

lemma wrap64_id: "in_int32 x \<Longrightarrow> wrap64 x = x"
  by (simp add: in_int32_def INT_MIN_def INT_MAX_def wrap64_def)

lemma js_speedBonus:
  assumes "in_int32 d"
  shows "max 0 (of_int \<lfloor>ddiv (dsub 2000 (d_of_int (2000 - d))) 100\<rfloor>)
         = (of_int (max 0 (tdiv d 100)) :: rat)"
proof -
  have b: "\<bar>2000 - d\<bar> < 2 ^ 53" "\<bar>d\<bar> < 2 ^ 53"
    using assms by (simp_all add: in_int32_def INT_MIN_def INT_MAX_def abs_less_iff)
  have "d_of_int (2000 - d) = of_int (2000 - d)"
    unfolding d_of_int_def by (rule rd_of_int [OF b(1)])
  then have "dsub 2000 (d_of_int (2000 - d)) = rd (of_int d)" by (simp add: dsub_def)
  also have "\<dots> = of_int d" by (rule rd_of_int [OF b(2)])
  finally have q: "ddiv (dsub 2000 (d_of_int (2000 - d))) 100 = rd (of_int d / 100)"
    by (simp add: ddiv_def)
  show ?thesis
  proof (cases "0 \<le> d")
    case True
    then have "\<lfloor>rd (of_int d / 100)\<rfloor> = d div 100"
      using assms by (intro floor_rd_div_100) (simp_all add: in_int32_def INT_MAX_def)
    then show ?thesis using True by (simp add: q tdiv_100)
  next
    case False
    then have "(of_int d :: rat) / 100 \<le> 0" by simp
    then have "rd (of_int d / 100) \<le> 0" by (rule rd_nonpos)
    then have "\<lfloor>rd (of_int d / 100)\<rfloor> \<le> \<lfloor>0 :: rat\<rfloor>" by (rule floor_mono)
    then have "(of_int \<lfloor>rd (of_int d / 100)\<rfloor> :: rat) \<le> of_int 0"
      by (simp only: of_int_le_iff floor_zero)
    then have l: "max 0 (of_int \<lfloor>rd (of_int d / 100)\<rfloor> :: rat) = 0"
      by (simp only: of_int_0 max_absorb1)
    have "tdiv d 100 \<le> 0" using False by (simp add: tdiv_100)
    then have "max 0 (tdiv d 100) = 0" by simp
    with l show ?thesis by (simp only: q of_int_0)
  qed
qed

lemma no_bonus: "dadd 1 (dmul (d_of_int 0) y) = 1"
  using rd_of_int [of 1] by (simp add: dadd_def dmul_def d_of_int_def)

lemma dmul_one: "dmul (dmul x y) 1 = dmul x y"
  by (simp add: dmul_def)


lemma calculatePoints_unfold:
  assumes "in_int32 (2000 - rt)" "in_int32 (difficulty - 1)"
  shows "calculatePoints rt combo difficulty =
    cpp_int (std_round (dmul (dmul (d_of_int (10 + max 0 (tdiv (2000 - rt) 100)))
                                (dadd 1 (dmul (d_of_int combo) (rd (1 / 10)))))
                          (dadd 1 (dmul (d_of_int (difficulty - 1)) (rd (15 / 100))))))"
  using assms by (simp add: calculatePoints_def cpp_int_def Let_def)

lemma calculatePoints_Some_D:
  assumes "calculatePoints rt combo difficulty = Some p"
  shows "in_int32 (2000 - rt) \<and> in_int32 (difficulty - 1)"
  using assms by (auto simp: calculatePoints_def cpp_int_def Let_def split: if_splits)

lemma cpp_int_Some: "cpp_int x = Some p \<Longrightarrow> x = p \<and> in_int32 p"
  by (auto simp: cpp_int_def split: if_splits)

lemma js_points_eq:
  assumes "in_int32 (2000 - RT)"
  shows "js_points RT combo =
    Math_round (dmul (d_of_int (10 + max 0 (tdiv (2000 - RT) 100)))
                  (dadd 1 (dmul (d_of_int combo) (rd (1 / 10)))))"
proof -
  have "max 0 (of_int \<lfloor>ddiv (dsub 2000 (d_of_int RT)) 100\<rfloor>)
         = (of_int (max 0 (tdiv (2000 - RT) 100)) :: rat)"
    using js_speedBonus [OF assms] by simp
  moreover have "dadd 10 (of_int (max 0 (tdiv (2000 - RT) 100)))
    = d_of_int (10 + max 0 (tdiv (2000 - RT) 100))"
    by (simp add: dadd_def d_of_int_def)
  ultimately show ?thesis by (simp add: js_points_def Let_def)
qed

lemma calculatePoints_java_eq:
  assumes "in_int32 (2000 - rt)" "in_int32 (difficulty - 1)"
  shows "calculatePoints_java rt combo difficulty =
    wrap32 (java_long_of_round (Math_round
      (dmul (dmul (d_of_int (10 + max 0 (tdiv (2000 - rt) 100)))
                  (dadd 1 (dmul (d_of_int combo) (rd (1 / 10)))))
            (dadd 1 (dmul (d_of_int (difficulty - 1)) (rd (15 / 100)))))))"
  using assms speedBonus_in_int32 [OF assms(1)]
  by (simp add: calculatePoints_java_def Let_def wrap64_id wrap32_id)

subsection \<open>The tie that C# rounds down\<close>

text \<open>
  C1. The claim's formula with \<open>round\<close> holds for the C++ function (lemma
  \<open>calculatePoints_unfold\<close>) and gives 53 at reaction time 300, combo 5, difficulty 3
  in the C++, C# and Java engines. The C# function departs from it at a tie: at
  reaction time 1500, combo 1, difficulty 1 the product \<open>(10 + 5) * 1.1 * 1.0\<close> is
  exactly 16.5 in \<open>double\<close> arithmetic; \<open>Math.Round\<close> rounds the tie to the even
  integer and \<open>CalculatePoints\<close> returns 16, where \<open>std::round\<close> in C++ and
  \<open>Math.round\<close> in Java and JavaScript return 17.
\<close>

theorem CalculatePoints_rounds_tie_to_even:
  "dmul (dmul (d_of_int 15) (dadd 1 (dmul (d_of_int 1) (rd (1 / 10)))))
     (dadd 1 (dmul (d_of_int 0) (rd (15 / 100)))) = 33 / 2
   \<and> CalculatePoints 1500 1 1 = 16
   \<and> calculatePoints 1500 1 1 = Some 17
   \<and> calculatePoints_java 1500 1 1 = 17
   \<and> js_points 1500 1 = 17
   \<and> calculatePoints 300 5 3 = Some 53
   \<and> CalculatePoints 300 5 3 = 53
   \<and> calculatePoints_java 300 5 3 = 53"
  by (simp only: tie_product CalculatePoints_1500_1_1 calculatePoints_1500_1_1
      calculatePoints_java_1500_1_1 js_points_1500_1 calculatePoints_300_5_3
      CalculatePoints_300_5_3 calculatePoints_java_300_5_3 simp_thms)

subsection \<open>The client against the servers\<close>

text \<open>
  C2, as the claim states it, fails: the client's points do not read the difficulty.
  At reaction time 300 and combo 5 the client adds 41 points at every difficulty; the
  C++, C# and Java engines compute 53 at difficulty 3.
\<close>

theorem client_points_ignore_difficulty:
  "js_points 300 5 = 41
   \<and> calculatePoints 300 5 3 = Some 53
   \<and> CalculatePoints 300 5 3 = 53
   \<and> calculatePoints_java 300 5 3 = 53
   \<and> Some (js_points 300 5) \<noteq> calculatePoints 300 5 3"
  by (simp add: js_points_300_5 calculatePoints_300_5_3 CalculatePoints_300_5_3
      calculatePoints_java_300_5_3)

text \<open>
  C2, amended. For a combo that is not negative, whenever the C++ function returns a
  value (its 32-bit arithmetic does not overflow): at difficulty 1, where the
  difficulty bonus is 1, the points the client adds are the points of the C++
  function; and at every difficulty from 1 on, the Java function returns the points
  of the C++ function. The client applies no difficulty bonus at any difficulty.
\<close>

theorem client_and_servers_agree_without_bonus:
  "(0 \<le> combo \<and> calculatePoints RT combo 1 = Some p \<longrightarrow> js_points RT combo = p)
   \<and> (0 \<le> combo \<and> 1 \<le> difficulty \<and> calculatePoints RT combo difficulty = Some p'
        \<longrightarrow> calculatePoints_java RT combo difficulty = p')"
proof (intro conjI impI)
  assume a: "0 \<le> combo \<and> calculatePoints RT combo 1 = Some p"
  then have r: "in_int32 (2000 - RT)" "in_int32 (1 - 1)"
    using calculatePoints_Some_D [of RT combo 1 p] by simp_all
  let ?x = "dmul (d_of_int (10 + max 0 (tdiv (2000 - RT) 100)))
              (dadd 1 (dmul (d_of_int combo) (rd (1 / 10))))"
  have "0 \<le> dmul ?x 1"
    using a speedBonus_in_int32 [OF r(1)] rd_tenth_nonneg
    by (intro product_nonneg multiplier_nonneg) simp_all
  then have x: "0 \<le> ?x" by (simp add: dmul_one)
  have "calculatePoints RT combo 1 = cpp_int (std_round ?x)"
    using calculatePoints_unfold [OF r] by (simp add: no_bonus dmul_one)
  with a have "std_round ?x = p" using cpp_int_Some by fastforce
  then show "js_points RT combo = p"
    using x by (simp add: js_points_eq [OF r(1)] std_round_nonneg)
next
  assume a: "0 \<le> combo \<and> 1 \<le> difficulty \<and> calculatePoints RT combo difficulty = Some p'"
  then have r: "in_int32 (2000 - RT)" "in_int32 (difficulty - 1)"
    using calculatePoints_Some_D [of RT combo difficulty p'] by simp_all
  let ?x = "dmul (dmul (d_of_int (10 + max 0 (tdiv (2000 - RT) 100)))
                    (dadd 1 (dmul (d_of_int combo) (rd (1 / 10)))))
              (dadd 1 (dmul (d_of_int (difficulty - 1)) (rd (15 / 100))))"
  have x: "0 \<le> ?x"
    using a speedBonus_in_int32 [OF r(1)] rd_tenth_nonneg
    by (intro product_nonneg multiplier_nonneg) simp_all
  have "calculatePoints RT combo difficulty = cpp_int (std_round ?x)"
    by (rule calculatePoints_unfold [OF r])
  with a have p: "std_round ?x = p'" "in_int32 p'" using cpp_int_Some by fastforce+
  then have "Math_round ?x = p'" using x by (simp add: std_round_nonneg)
  then show "calculatePoints_java RT combo difficulty = p'"
    using p(2)
    by (simp add: calculatePoints_java_eq [OF r] wrap32_id java_long_of_round_def
        in_int32_def INT_MIN_def INT_MAX_def)
qed

theorem client_and_servers_agree_without_bonus_witness:
  "(0::int) \<le> 5 \<and> calculatePoints 300 5 1 = Some 41 \<and> js_points 300 5 = 41
   \<and> (1::int) \<le> 3 \<and> calculatePoints 300 5 3 = Some 53 \<and> calculatePoints_java 300 5 3 = 53"
  using client_and_servers_agree_without_bonus [of 5 300 41 3 53]
  by (simp add: calculatePoints_300_5_1 calculatePoints_300_5_3)

section \<open>The leaderboard\<close>

subsection \<open>The sort and the entries\<close>

lemma not_higher_ranked: "(\<not> higher_ranked b a) = ranks_no_lower a b"
  by (auto simp: higher_ranked_def ranks_no_lower_def)

lemma ranks_no_lower_trans:
  "ranks_no_lower a b \<Longrightarrow> ranks_no_lower b c \<Longrightarrow> ranks_no_lower a c"
  by (auto simp: ranks_no_lower_def)

lemma higher_ranked_no_lower: "higher_ranked a b \<Longrightarrow> ranks_no_lower a b"
  by (auto simp: higher_ranked_def ranks_no_lower_def split: if_splits)

lemma mset_insert_sorted: "mset (insert_sorted before x xs) = add_mset x (mset xs)"
  by (induction xs) auto

lemma set_insert_sorted: "set (insert_sorted before x xs) = insert x (set xs)"
  by (induction xs) auto

lemma sorted_insert_sorted:
  "sorted_wrt ranks_no_lower xs \<Longrightarrow> sorted_wrt ranks_no_lower (insert_sorted higher_ranked x xs)"
proof (induction xs)
  case Nil
  then show ?case by simp
next
  case (Cons y ys)
  show ?case
  proof (cases "higher_ranked y x")
    case True
    with Cons show ?thesis
      by (auto simp: set_insert_sorted higher_ranked_no_lower)
  next
    case False
    then have xy: "ranks_no_lower x y" by (simp add: not_higher_ranked)
    with Cons.prems have "\<forall>z\<in>set ys. ranks_no_lower x z"
      by (auto intro: ranks_no_lower_trans)
    with False xy Cons.prems show ?thesis by simp
  qed
qed

lemma mset_std_sort: "mset (std_sort before xs) = mset xs"
  by (induction xs) (simp_all add: std_sort_def mset_insert_sorted)

lemma length_std_sort: "length (std_sort before xs) = length xs"
  using mset_std_sort [of before xs] by (metis size_mset)

lemma sorted_std_sort: "sorted_wrt ranks_no_lower (std_sort higher_ranked xs)"
  by (induction xs) (simp_all add: std_sort_def sorted_insert_sorted)

lemma percentile_exact:
  fixes n i :: int
  assumes "0 \<le> i" "i < n" "n < 2 ^ 31"
  shows "dmul (ddiv (dsub (d_of_int (n - i)) 1) (dsub (d_of_int n) 1)) 100
         = dmul (ddiv (of_int (n - 1 - i)) (of_int (n - 1))) 100"
proof -
  have a: "\<bar>n - i\<bar> < 2 ^ 53" "\<bar>n\<bar> < 2 ^ 53" "\<bar>n - 1 - i\<bar> < 2 ^ 53" "\<bar>n - 1\<bar> < 2 ^ 53"
    using assms by (simp_all add: abs_less_iff)
  have e: "(of_int (n - i) :: rat) - 1 = of_int (n - 1 - i)" "(of_int n :: rat) - 1 = of_int (n - 1)"
    by simp_all
  have 1: "dsub (d_of_int (n - i)) 1 = of_int (n - 1 - i)"
    by (simp only: dsub_def d_of_int_def rd_of_int [OF a(1)] e rd_of_int [OF a(3)])
  have 2: "dsub (d_of_int n) 1 = of_int (n - 1)"
    by (simp only: dsub_def d_of_int_def rd_of_int [OF a(2)] e rd_of_int [OF a(4)])
  show ?thesis by (simp only: 1 2)
qed

lemma length_getRankings:
  "length (getRankings scores modeFilter)
   = length (filter (\<lambda>s. modeFilter = [] \<or> mode s = modeFilter) scores)"
  by (simp add: getRankings_def Let_def length_std_sort)

lemma getRankings_nth:
  assumes "i < length (getRankings scores modeFilter)"
  shows "getRankings scores modeFilter ! i =
    (let filtered = std_sort higher_ranked
                      (filter (\<lambda>s. modeFilter = [] \<or> mode s = modeFilter) scores);
         totalPlayers = int (length filtered);
         player = filtered ! i
     in \<lparr> rank = int i + 1,
          entry_username = username player,
          entry_totalPoints = totalPoints player,
          entry_avgReactionMs = avgReactionMs player,
          entry_rating = rating player,
          percentile =
            (if totalPlayers > 1
             then dmul (ddiv (dsub (d_of_int (totalPlayers - int i)) 1)
                             (dsub (d_of_int totalPlayers) 1)) 100
             else 100) \<rparr>)"
  using assms by (simp add: getRankings_def Let_def)

lemma getRankings_players:
  "map (\<lambda>e. (entry_username e, entry_totalPoints e, entry_avgReactionMs e, entry_rating e))
     (getRankings scores modeFilter)
   = map (\<lambda>s. (username s, totalPoints s, avgReactionMs s, rating s))
       (std_sort higher_ranked (filter (\<lambda>s. modeFilter = [] \<or> mode s = modeFilter) scores))"
  by (rule nth_equalityI) (simp_all add: getRankings_def Let_def)

lemma getRankings_order:
  assumes "i < j" "j < length (getRankings scores modeFilter)"
  shows "entry_totalPoints (getRankings scores modeFilter ! j)
           < entry_totalPoints (getRankings scores modeFilter ! i)
         \<or> (entry_totalPoints (getRankings scores modeFilter ! i)
               = entry_totalPoints (getRankings scores modeFilter ! j)
            \<and> entry_avgReactionMs (getRankings scores modeFilter ! i)
               \<le> entry_avgReactionMs (getRankings scores modeFilter ! j))"
proof -
  let ?f = "std_sort higher_ranked (filter (\<lambda>s. modeFilter = [] \<or> mode s = modeFilter) scores)"
  have l: "length (getRankings scores modeFilter) = length ?f"
    by (simp add: getRankings_def Let_def)
  have "ranks_no_lower (?f ! i) (?f ! j)"
    using sorted_std_sort assms l by (simp add: sorted_wrt_iff_nth_less)
  then show ?thesis
    using assms by (simp add: getRankings_nth Let_def ranks_no_lower_def)
qed

lemma rd_452: "rd (226 / 5) = 3180667236830413 / 70368744177664"
  by code_simp

lemma rd_421: "rd (421 / 10) = 5925048259759309 / 140737488355328"
  by code_simp

lemma example_percentiles:
  "dmul (ddiv (dsub (d_of_int 3) 1) (dsub (d_of_int 3) 1)) 100 = 100"
  "dmul (ddiv (dsub (d_of_int 2) 1) (dsub (d_of_int 3) 1)) 100 = 50"
  "dmul (ddiv (dsub (d_of_int 1) 1) (dsub (d_of_int 3) 1)) 100 = 0"
  by code_simp+

lemma getRankings_example_full:
  "getRankings example_scores [] =
     [\<lparr> rank = 1, entry_username = ''Quantum_Mind'', entry_totalPoints = 1240,
        entry_avgReactionMs = 5925048259759309 / 140737488355328,
        entry_rating = ''Grandmaster'', percentile = 100 \<rparr>,
      \<lparr> rank = 2, entry_username = ''Cipher_Master'', entry_totalPoints = 1240,
        entry_avgReactionMs = 3180667236830413 / 70368744177664,
        entry_rating = ''Expert'', percentile = 50 \<rparr>,
      \<lparr> rank = 3, entry_username = ''Master_Player'', entry_totalPoints = 950,
        entry_avgReactionMs = 50, entry_rating = ''Proficient'', percentile = 0 \<rparr>]"
  by (simp add: getRankings_def example_scores_def std_sort_def higher_ranked_def Let_def
      rd_452 rd_421 example_percentiles upt_rec)

subsection \<open>Order and percentiles\<close>

text \<open>
  C6. For a list of fewer than \<open>2^31\<close> records (its size is cast to \<open>int\<close>), the
  ranking holds exactly the records that pass the mode filter; an entry that stands
  before another has more points, or the same points and an average reaction time
  that is not higher; the entry at position \<open>i\<close> (from 0) of \<open>N\<close> has rank \<open>i + 1\<close> and
  percentile \<open>(N - 1 - i) / (N - 1) * 100\<close> in \<open>double\<close> arithmetic when \<open>N > 1\<close>, and
  100 when \<open>N = 1\<close>. On the three records with 1240 points at 45.2, 1240 points at
  42.1 and 950 points at 50 the order is the 42.1 record, the 45.2 record, the 950
  record, with percentiles 100, 50 and 0.
\<close>

theorem getRankings_sorted_with_percentiles:
  "(length scores < 2 ^ 31 \<longrightarrow>
      (let ranked = getRankings scores modeFilter; N = length ranked
       in mset (map (\<lambda>e. (entry_username e, entry_totalPoints e, entry_avgReactionMs e,
                            entry_rating e)) ranked)
            = mset (map (\<lambda>s. (username s, totalPoints s, avgReactionMs s, rating s))
                      (filter (\<lambda>s. modeFilter = [] \<or> mode s = modeFilter) scores))
          \<and> (\<forall>i j. i < j \<and> j < N \<longrightarrow>
                 entry_totalPoints (ranked ! j) < entry_totalPoints (ranked ! i)
                 \<or> (entry_totalPoints (ranked ! i) = entry_totalPoints (ranked ! j)
                    \<and> entry_avgReactionMs (ranked ! i) \<le> entry_avgReactionMs (ranked ! j)))
          \<and> (\<forall>i. i < N \<longrightarrow>
                 rank (ranked ! i) = int i + 1
                 \<and> percentile (ranked ! i)
                     = (if 1 < N
                        then dmul (ddiv (of_int (int N - 1 - int i)) (of_int (int N - 1))) 100
                        else 100))))
   \<and> map (\<lambda>e. (rank e, entry_username e, entry_totalPoints e, percentile e))
        (getRankings example_scores [])
      = [(1, ''Quantum_Mind'', 1240, 100), (2, ''Cipher_Master'', 1240, 50),
         (3, ''Master_Player'', 950, 0)]"
proof (intro conjI impI)
  assume len: "length scores < 2 ^ 31"
  let ?flt = "filter (\<lambda>s. modeFilter = [] \<or> mode s = modeFilter) scores"
  let ?r = "getRankings scores modeFilter"
  have N: "length ?r = length (std_sort higher_ranked ?flt)" "length ?r \<le> length scores"
    by (simp_all add: length_getRankings length_std_sort)
  have p: "mset (map (\<lambda>e. (entry_username e, entry_totalPoints e, entry_avgReactionMs e,
                            entry_rating e)) ?r)
            = mset (map (\<lambda>s. (username s, totalPoints s, avgReactionMs s, rating s)) ?flt)"
    by (simp only: getRankings_players mset_map mset_std_sort)
  have o: "\<forall>i j. i < j \<and> j < length ?r \<longrightarrow>
                 entry_totalPoints (?r ! j) < entry_totalPoints (?r ! i)
                 \<or> (entry_totalPoints (?r ! i) = entry_totalPoints (?r ! j)
                    \<and> entry_avgReactionMs (?r ! i) \<le> entry_avgReactionMs (?r ! j))"
    using getRankings_order by blast
  have q: "\<forall>i. i < length ?r \<longrightarrow>
                 rank (?r ! i) = int i + 1
                 \<and> percentile (?r ! i)
                     = (if 1 < length ?r
                        then dmul (ddiv (of_int (int (length ?r) - 1 - int i))
                                        (of_int (int (length ?r) - 1))) 100
                        else 100)"
  proof (intro allI impI)
    fix i assume i: "i < length ?r"
    have "int (length ?r) < 2 ^ 31" using N(2) len by simp
    then have "dmul (ddiv (dsub (d_of_int (int (length ?r) - int i)) 1)
                      (dsub (d_of_int (int (length ?r))) 1)) 100
         = dmul (ddiv (of_int (int (length ?r) - 1 - int i)) (of_int (int (length ?r) - 1))) 100"
      using i by (intro percentile_exact) simp_all
    then show "rank (?r ! i) = int i + 1
                 \<and> percentile (?r ! i)
                     = (if 1 < length ?r
                        then dmul (ddiv (of_int (int (length ?r) - 1 - int i))
                                        (of_int (int (length ?r) - 1))) 100
                        else 100)"
      using i N(1) by (simp add: getRankings_nth Let_def)
  qed
  from p o q show "let ranked = ?r; N = length ranked
       in mset (map (\<lambda>e. (entry_username e, entry_totalPoints e, entry_avgReactionMs e,
                            entry_rating e)) ranked)
            = mset (map (\<lambda>s. (username s, totalPoints s, avgReactionMs s, rating s)) ?flt)
          \<and> (\<forall>i j. i < j \<and> j < N \<longrightarrow>
                 entry_totalPoints (ranked ! j) < entry_totalPoints (ranked ! i)
                 \<or> (entry_totalPoints (ranked ! i) = entry_totalPoints (ranked ! j)
                    \<and> entry_avgReactionMs (ranked ! i) \<le> entry_avgReactionMs (ranked ! j)))
          \<and> (\<forall>i. i < N \<longrightarrow>
                 rank (ranked ! i) = int i + 1
                 \<and> percentile (ranked ! i)
                     = (if 1 < N
                        then dmul (ddiv (of_int (int N - 1 - int i)) (of_int (int N - 1))) 100
                        else 100))"
    unfolding Let_def by blast
next
  show "map (\<lambda>e. (rank e, entry_username e, entry_totalPoints e, percentile e))
        (getRankings example_scores [])
      = [(1, ''Quantum_Mind'', 1240, 100), (2, ''Cipher_Master'', 1240, 50),
         (3, ''Master_Player'', 950, 0)]"
    by (simp add: getRankings_example_full)
qed

theorem getRankings_sorted_with_percentiles_witness:
  "length example_scores < 2 ^ 31
   \<and> length (getRankings example_scores []) = 3
   \<and> entry_totalPoints (getRankings example_scores [] ! 0)
        = entry_totalPoints (getRankings example_scores [] ! 1)
   \<and> entry_avgReactionMs (getRankings example_scores [] ! 0)
        \<le> entry_avgReactionMs (getRankings example_scores [] ! 1)
   \<and> entry_totalPoints (getRankings example_scores [] ! 2)
        < entry_totalPoints (getRankings example_scores [] ! 1)
   \<and> percentile (getRankings example_scores [] ! 1) = dmul (ddiv (of_int 1) (of_int 2)) 100
   \<and> percentile (getRankings example_scores [] ! 1) = 50"
proof -
  let ?G = "getRankings example_scores []"
  have l: "length example_scores < 2 ^ 31" by (simp add: example_scores_def)
  have n: "length ?G = 3" by (simp add: getRankings_example_full)
  note t = getRankings_sorted_with_percentiles [of example_scores "[]", THEN conjunct1,
      rule_format, OF l, unfolded Let_def n]
  from t have "\<forall>i j. i < j \<and> j < 3 \<longrightarrow>
      entry_totalPoints (?G ! j) < entry_totalPoints (?G ! i)
      \<or> (entry_totalPoints (?G ! i) = entry_totalPoints (?G ! j)
         \<and> entry_avgReactionMs (?G ! i) \<le> entry_avgReactionMs (?G ! j))"
    by blast
  then have o: "entry_totalPoints (?G ! 1) < entry_totalPoints (?G ! 0)
      \<or> (entry_totalPoints (?G ! 0) = entry_totalPoints (?G ! 1)
         \<and> entry_avgReactionMs (?G ! 0) \<le> entry_avgReactionMs (?G ! 1))"
    by simp
  from t have "\<forall>i. i < 3 \<longrightarrow> percentile (?G ! i)
      = (if 1 < (3::nat) then dmul (ddiv (of_int (int 3 - 1 - int i)) (of_int (int 3 - 1))) 100
         else 100)"
    by blast
  then have p: "percentile (?G ! 1) = dmul (ddiv (of_int 1) (of_int 2)) 100" by simp
  have e: "entry_totalPoints (?G ! 0) = 1240" "entry_totalPoints (?G ! 1) = 1240"
    "entry_totalPoints (?G ! 2) = 950" "percentile (?G ! 1) = 50"
    by (simp_all add: getRankings_example_full)
  from o e have "entry_avgReactionMs (?G ! 0) \<le> entry_avgReactionMs (?G ! 1)" by simp
  with l n p e show ?thesis by simp
qed

section \<open>The question generators\<close>

subsection \<open>The registry and upper case\<close>

lemma length_Keys: "length Keys = 15" "length Colors = 15"
  by (simp_all add: Keys_def Colors_def)

lemma ToUpper_Keys:
  "map ToUpper Keys =
     [''RED'', ''BLUE'', ''GREEN'', ''YELLOW'', ''PURPLE'', ''ORANGE'', ''PINK'', ''CYAN'',
      ''INDIGO'', ''VIOLET'', ''BLACK'', ''BROWN'', ''LAVENDER'', ''WHITE'', ''BEIGE'']"
  by (simp add: Keys_def Colors_def ToUpper_def ToUpper_char_def char_of_def bit_0 Let_def)

lemma Keys_eq:
  "Keys = [''Red'', ''Blue'', ''Green'', ''Yellow'', ''Purple'', ''Orange'', ''Pink'', ''Cyan'',
      ''Indigo'', ''Violet'', ''Black'', ''Brown'', ''Lavender'', ''White'', ''Beige'']"
  by (simp add: Keys_def Colors_def)

lemma distinct_Keys: "distinct Keys"
  by (simp add: Keys_eq)

lemma distinct_ToUpper_Keys: "distinct (map ToUpper Keys)"
  by (simp add: ToUpper_Keys)

lemma ToUpper_not_Key: "w \<in> set Keys \<Longrightarrow> ToUpper w \<notin> set Keys"
proof -
  assume "w \<in> set Keys"
  then have "ToUpper w \<in> set (map ToUpper Keys)" by simp
  moreover have "set (map ToUpper Keys) \<inter> set Keys = {}"
    unfolding ToUpper_Keys by (simp add: Keys_eq)
  ultimately show ?thesis by blast
qed

lemma ToUpper_inj_Keys:
  "w \<in> set Keys \<Longrightarrow> c \<in> set Keys \<Longrightarrow> (ToUpper w = ToUpper c) = (w = c)"
  using distinct_ToUpper_Keys by (auto simp: distinct_map inj_on_def)


subsection \<open>Shuffles and the filling loop\<close>

lemma Random_Next_less:
  "Random_Next n rs = Some (i, rs') \<Longrightarrow> 0 < n \<Longrightarrow> i < n"
  by (auto simp: Random_Next_def nat_less_iff split: list.splits)

lemma OrderBy_random_mset:
  assumes "OrderBy_random xs rs = Some (ys, rs')"
  shows "mset ys = mset xs"
proof -
  let ?ks = "map (\<lambda>r. r mod 2147483647) (take (length xs) rs)"
  from assms have l: "length xs \<le> length rs" and y: "ys = map snd (sort_key fst (zip ?ks xs))"
    by (auto simp: OrderBy_random_def split: if_splits)
  have "mset ys = image_mset snd (mset (zip ?ks xs))" by (simp add: y)
  also have "\<dots> = mset (map snd (zip ?ks xs))" by simp
  also have "map snd (zip ?ks xs) = xs" using l by (simp add: map_snd_zip)
  finally show ?thesis .
qed

lemma Key_at: "Keys ! nat (r mod int (length Colors)) \<in> set Keys"
  by (simp add: length_Keys nat_less_iff)

lemma fill_options_sound:
  "fill_options opts rs = Some (opts', rs') \<Longrightarrow> distinct opts \<Longrightarrow> length opts \<le> 4
   \<Longrightarrow> \<exists>fill. opts' = opts @ fill \<and> distinct opts' \<and> length opts' = 4 \<and> set fill \<subseteq> set Keys"
proof (induction opts rs rule: fill_options.induct)
  case (1 options)
  then show ?case by (auto split: if_splits)
next
  case (2 options r rs)
  show ?case
  proof (cases "length options < 4")
    case False
    with 2 show ?thesis by auto
  next
    case True
    let ?filler = "Keys ! nat (r mod int (length Colors))"
    let ?o = "if ?filler \<in> set options then options else options @ [?filler]"
    from 2 True have f: "fill_options ?o rs = Some (opts', rs')" by (simp add: Let_def)
    have d: "distinct ?o" "length ?o \<le> 4" using 2 True by auto
    from "2.IH" [OF True refl f d] obtain fill
      where fill: "opts' = ?o @ fill" "distinct opts'" "length opts' = 4" "set fill \<subseteq> set Keys"
      by blast
    show ?thesis
    proof (cases "?filler \<in> set options")
      case True
      with fill show ?thesis by auto
    next
      case False
      with fill have "opts' = options @ (?filler # fill)" by simp
      moreover have "set (?filler # fill) \<subseteq> set Keys" using fill(4) Key_at by simp
      ultimately show ?thesis using fill(2,3) by blast
    qed
  qed
qed

lemma fill_options_full:
  "fill_options opts rs = Some (opts', rs') \<Longrightarrow> 4 \<le> length opts \<Longrightarrow> opts' = opts"
  by (cases rs) (auto split: if_splits)

text \<open>What the four options are, whatever shuffle arranged the distractors and the result.\<close>

lemma options_sound:
  assumes pool: "distinct pool" "f \<in> set pool"
    and ds: "mset ds = mset (filter (\<lambda>c. c \<noteq> f \<and> c \<noteq> w) pool)"
    and fill: "fill_options (f # take 3 ds) rs = Some (opts, rs')"
    and final: "mset final = mset opts"
  shows "length final = 4 \<and> distinct final \<and> f \<in> set final
    \<and> set final \<subseteq> insert f ({c \<in> set pool. c \<noteq> f \<and> c \<noteq> w} \<union> set Keys)
    \<and> (card {c \<in> set pool. c \<noteq> f \<and> c \<noteq> w} < 3 \<longrightarrow>
          {c \<in> set pool. c \<noteq> f \<and> c \<noteq> w} \<subseteq> set final)
    \<and> (3 \<le> card {c \<in> set pool. c \<noteq> f \<and> c \<noteq> w} \<longrightarrow>
          set final \<subseteq> insert f {c \<in> set pool. c \<noteq> f \<and> c \<noteq> w})"
proof -
  let ?D = "{c \<in> set pool. c \<noteq> f \<and> c \<noteq> w}"
  have "set ds = set (filter (\<lambda>c. c \<noteq> f \<and> c \<noteq> w) pool)" by (rule mset_eq_setD [OF ds])
  then have sd: "set ds = ?D" by simp
  have dd: "distinct ds" using mset_eq_imp_distinct_iff [OF ds] pool(1) by simp
  have cd: "card ?D = length ds" using distinct_card [OF dd] by (simp only: sd)
  have t: "set (take 3 ds) \<subseteq> ?D" using set_take_subset [of 3 ds] by (simp only: sd)
  then have "f \<notin> set (take 3 ds)" by blast
  then have d0: "distinct (f # take 3 ds)" "length (f # take 3 ds) \<le> 4"
    using dd by simp_all
  from fill_options_sound [OF fill d0] obtain extra
    where e: "opts = (f # take 3 ds) @ extra" "distinct opts" "length opts = 4" "set extra \<subseteq> set Keys"
    by blast
  have sf: "set final = set opts" by (rule mset_eq_setD [OF final])
  have lf: "length final = 4" using mset_eq_length [OF final] e(3) by simp
  have df: "distinct final" using mset_eq_imp_distinct_iff [OF final] e(2) by simp
  have so: "set opts = insert f (set (take 3 ds) \<union> set extra)" by (simp add: e(1))
  have a: "set final \<subseteq> insert f (?D \<union> set Keys)"
    unfolding sf so using t e(4) by blast
  have b: "card ?D < 3 \<longrightarrow> ?D \<subseteq> set final"
  proof
    assume "card ?D < 3"
    then have "take 3 ds = ds" using cd by simp
    then have "set opts = insert f (?D \<union> set extra)" using so sd by simp
    then show "?D \<subseteq> set final" unfolding sf by blast
  qed
  have c: "3 \<le> card ?D \<longrightarrow> set final \<subseteq> insert f ?D"
  proof
    assume "3 \<le> card ?D"
    then have "4 \<le> length (f # take 3 ds)" using cd by simp
    from fill_options_full [OF fill this] have "set opts = insert f (set (take 3 ds))" by simp
    then show "set final \<subseteq> insert f ?D" unfolding sf using t by blast
  qed
  have "f \<in> set final" unfolding sf so by simp
  with a b c lf df show ?thesis by blast
qed


lemma pick_textWord_sound:
  assumes "pick_textWord wc rs = Some (w, rs')" "wc \<noteq> []"
  shows "w \<in> set wc"
  using assms Random_Next_less [of "length wc" rs]
  by (auto simp: pick_textWord_def split: option.splits)

lemma NextQuestion_SomeD:
  assumes "NextQuestion s rs = Inr (Some q, s', rs')"
  shows "\<exists>w ds opts r1 r2 r3 r4.
      FontColorName q \<in> set (colorPool s)
    \<and> pick_textWord (filter (\<lambda>c. c \<noteq> FontColorName q) (colorPool s)) r1 = Some (w, r2)
    \<and> OrderBy_random (filter (\<lambda>c. c \<noteq> FontColorName q \<and> c \<noteq> w) (colorPool s)) r2 = Some (ds, r3)
    \<and> fill_options (FontColorName q # take 3 ds) r3 = Some (opts, r4)
    \<and> OrderBy_random opts r4 = Some (Options q, rs')
    \<and> TextWord q = ToUpper w
    \<and> s' = s\<lparr>CurrentQuestion := Some q\<rparr>"
proof -
  from assms have act: "State s = Active" by (auto simp: NextQuestion_def split: if_splits)
  from assms act obtain i r1 where i: "Random_Next (length (colorPool s)) rs = Some (i, r1)"
      "i < length (colorPool s)"
    by (auto simp: NextQuestion_def split: option.splits if_splits)
  let ?f = "colorPool s ! i"
  from assms act i obtain w r2
    where w: "pick_textWord (filter (\<lambda>c. c \<noteq> ?f) (colorPool s)) r1 = Some (w, r2)"
    by (auto simp: NextQuestion_def Let_def split: option.splits)
  from assms act i w obtain ds r3
    where ds: "OrderBy_random (filter (\<lambda>c. c \<noteq> ?f \<and> c \<noteq> w) (colorPool s)) r2 = Some (ds, r3)"
    by (auto simp: NextQuestion_def Let_def split: option.splits)
  from assms act i w ds obtain opts r4
    where opts: "fill_options (?f # take 3 ds) r3 = Some (opts, r4)"
    by (auto simp: NextQuestion_def Let_def split: option.splits)
  from assms act i w ds opts obtain opts' r5
    where fin: "OrderBy_random opts r4 = Some (opts', r5)"
    by (auto simp: NextQuestion_def Let_def split: option.splits)
  from assms act i w ds opts fin
  have q: "q = \<lparr> TextWord = ToUpper w, FontColorName = ?f,
                FontColorHex = (case map_of Colors ?f of Some hex \<Rightarrow> hex | None \<Rightarrow> ''#888''),
                Options = opts' \<rparr>" "s' = s\<lparr>CurrentQuestion := Some q\<rparr>" "rs' = r5"
    by (auto simp: NextQuestion_def Let_def)
  have f: "FontColorName q = ?f" "TextWord q = ToUpper w" "Options q = opts'"
    by (simp_all add: q(1))
  have "?f \<in> set (colorPool s)" using i(2) by simp
  with w ds opts fin q(2,3) show ?thesis
    unfolding f
    by (intro exI [of _ w] exI [of _ ds] exI [of _ opts] exI [of _ r1] exI [of _ r2]
        exI [of _ r3] exI [of _ r4]) simp
qed


lemma ToUpper_char_idem: "ToUpper_char (ToUpper_char c) = ToUpper_char c"
proof (cases "97 \<le> (of_char c :: nat) \<and> (of_char c :: nat) \<le> 122")
  case True
  let ?u = "char_of (of_char c - 32 :: nat) :: char"
  from True have e: "ToUpper_char c = ?u" by (simp add: ToUpper_char_def Let_def)
  from True have "(of_char c - 32 :: nat) < 256" by arith
  then have "(of_char c - 32 :: nat) mod 256 = of_char c - 32" by (rule mod_less)
  then have "(of_char ?u :: nat) = of_char c - 32" by simp
  with True have "\<not> (97 \<le> (of_char ?u :: nat))" by arith
  then have "ToUpper_char ?u = ?u" unfolding ToUpper_char_def Let_def by (rule if_not_P [OF contrapos_nn [OF _ conjunct1]])
  then show ?thesis by (simp only: e)
next
  case False
  then have e: "ToUpper_char c = c" unfolding ToUpper_char_def Let_def by (rule if_not_P)
  then show ?thesis by (simp only: e)
qed

lemma ToUpper_idem: "ToUpper (ToUpper w) = ToUpper w"
  by (simp add: ToUpper_def ToUpper_char_idem)

lemma swap_mset: "i < length l \<Longrightarrow> j < length l \<Longrightarrow> mset (swap l i j) = mset l"
  unfolding swap_def by (rule mset_swap)

lemma shuffle_from_mset:
  "shuffle_from n l rs = Some (l', rs') \<Longrightarrow> n \<le> length l \<Longrightarrow> mset l' = mset l"
proof (induction n l rs rule: shuffle_from.induct)
  case (4 n l r rs)
  let ?j = "nat (r mod int (Suc (Suc n)))"
  have j: "?j < Suc (Suc n)" by (simp add: nat_less_iff)
  have m: "mset (swap l (Suc n) ?j) = mset l" using 4(3) j by (intro swap_mset) simp_all
  have "length (swap l (Suc n) ?j) = length l" by (simp add: swap_def)
  with 4 have "mset l' = mset (swap l (Suc n) ?j)" by simp
  with m show ?case by simp
qed simp_all

lemma Collections_shuffle_mset:
  "Collections_shuffle l rs = Some (l', rs') \<Longrightarrow> mset l' = mset l"
  using shuffle_from_mset [of "length l" l rs l' rs'] by (simp add: Collections_shuffle_def)

subsection \<open>The question\<close>

lemma candidates_nonempty:
  assumes "distinct pool" "4 \<le> length pool"
  shows "filter (\<lambda>c. c \<noteq> f) pool \<noteq> []"
proof
  assume "filter (\<lambda>c. c \<noteq> f) pool = []"
  then have "set pool \<subseteq> {f}" by (auto simp: filter_empty_conv)
  then have "card (set pool) \<le> card {f}" by (intro card_mono) simp_all
  then show False using assms distinct_card [of pool] by simp
qed

text \<open>A question built from a font colour, a word for another colour, the shuffled
  distractors, the filled options and their shuffle.\<close>

lemma question_sound:
  assumes pool: "distinct pool" "set pool \<subseteq> set Keys"
    and f: "f \<in> set pool"
    and w: "w \<in> set (filter (\<lambda>c. c \<noteq> f) pool)"
    and ds: "mset ds = mset (filter (\<lambda>c. c \<noteq> f \<and> c \<noteq> w) pool)"
    and fill: "fill_options (f # take 3 ds) rs = Some (opts, rs')"
    and final: "mset final = mset opts"
  shows "ToUpper w \<noteq> f \<and> \<not> Equals_OrdinalIgnoreCase (ToUpper w) f
    \<and> length final = 4 \<and> distinct final \<and> f \<in> set final \<and> set final \<subseteq> set Keys
    \<and> (card {c \<in> set pool. c \<noteq> f \<and> ToUpper c \<noteq> ToUpper w} < 3 \<longrightarrow>
          {c \<in> set pool. c \<noteq> f \<and> ToUpper c \<noteq> ToUpper w} \<subseteq> set final
          \<and> card (set final - insert f {c \<in> set pool. c \<noteq> f \<and> ToUpper c \<noteq> ToUpper w})
              = 3 - card {c \<in> set pool. c \<noteq> f \<and> ToUpper c \<noteq> ToUpper w})
    \<and> (3 \<le> card {c \<in> set pool. c \<noteq> f \<and> ToUpper c \<noteq> ToUpper w} \<longrightarrow>
          set final \<subseteq> insert f {c \<in> set pool. c \<noteq> f \<and> ToUpper c \<noteq> ToUpper w})"
proof -
  have wk: "w \<in> set Keys" "w \<noteq> f" and fk: "f \<in> set Keys" using w f pool(2) by auto
  have D: "{c \<in> set pool. c \<noteq> f \<and> ToUpper c \<noteq> ToUpper w} = {c \<in> set pool. c \<noteq> f \<and> c \<noteq> w}"
    using pool(2) ToUpper_inj_Keys [OF _ wk(1)] by blast
  have a: "ToUpper w \<noteq> f" using ToUpper_not_Key [OF wk(1)] fk by auto
  have "ToUpper w \<noteq> ToUpper f" using ToUpper_inj_Keys [OF wk(1) fk] wk(2) by simp
  then have b: "\<not> Equals_OrdinalIgnoreCase (ToUpper w) f"
    by (simp add: Equals_OrdinalIgnoreCase_def ToUpper_idem)
  note o = options_sound [OF pool(1) f ds fill final]
  from o have "set final \<subseteq> insert f ({c \<in> set pool. c \<noteq> f \<and> c \<noteq> w} \<union> set Keys)" by blast
  then have k: "set final \<subseteq> set Keys" using fk pool(2) by blast
  let ?D = "{c \<in> set pool. c \<noteq> f \<and> c \<noteq> w}"
  have n: "card ?D < 3 \<longrightarrow> card (set final - insert f ?D) = 3 - card ?D"
  proof
    assume "card ?D < 3"
    with o have s: "insert f ?D \<subseteq> set final" by blast
    have fD: "finite ?D" "f \<notin> ?D" by simp_all
    have "card (set final) = 4" using o distinct_card [of final] by simp
    moreover have "card (insert f ?D) = Suc (card ?D)" using fD by (rule card_insert_disjoint)
    moreover have "card (set final - insert f ?D) = card (set final) - card (insert f ?D)"
      using s by (intro card_Diff_subset) simp_all
    ultimately show "card (set final - insert f ?D) = 3 - card ?D" by simp
  qed
  from a b k o n show ?thesis unfolding D by blast
qed

lemma NextQuestion_sound:
  assumes pool: "distinct (colorPool s)" "set (colorPool s) \<subseteq> set Keys" "4 \<le> length (colorPool s)"
    and q: "NextQuestion s rs = Inr (Some q, s', rs')"
  shows "TextWord q \<noteq> FontColorName q
    \<and> \<not> Equals_OrdinalIgnoreCase (TextWord q) (FontColorName q)
    \<and> length (Options q) = 4 \<and> distinct (Options q)
    \<and> FontColorName q \<in> set (Options q) \<and> set (Options q) \<subseteq> set Keys
    \<and> (card {c \<in> set (colorPool s). c \<noteq> FontColorName q \<and> ToUpper c \<noteq> TextWord q} < 3 \<longrightarrow>
          {c \<in> set (colorPool s). c \<noteq> FontColorName q \<and> ToUpper c \<noteq> TextWord q} \<subseteq> set (Options q)
          \<and> card (set (Options q) - insert (FontColorName q)
                   {c \<in> set (colorPool s). c \<noteq> FontColorName q \<and> ToUpper c \<noteq> TextWord q})
              = 3 - card {c \<in> set (colorPool s). c \<noteq> FontColorName q \<and> ToUpper c \<noteq> TextWord q})
    \<and> (3 \<le> card {c \<in> set (colorPool s). c \<noteq> FontColorName q \<and> ToUpper c \<noteq> TextWord q} \<longrightarrow>
          set (Options q) \<subseteq> insert (FontColorName q)
             {c \<in> set (colorPool s). c \<noteq> FontColorName q \<and> ToUpper c \<noteq> TextWord q})"
proof -
  from NextQuestion_SomeD [OF q] obtain w ds opts r1 r2 r3 r4 where
    f: "FontColorName q \<in> set (colorPool s)"
    and w: "pick_textWord (filter (\<lambda>c. c \<noteq> FontColorName q) (colorPool s)) r1 = Some (w, r2)"
    and ds: "OrderBy_random (filter (\<lambda>c. c \<noteq> FontColorName q \<and> c \<noteq> w) (colorPool s)) r2 = Some (ds, r3)"
    and fill: "fill_options (FontColorName q # take 3 ds) r3 = Some (opts, r4)"
    and fin: "OrderBy_random opts r4 = Some (Options q, rs')"
    and t: "TextWord q = ToUpper w"
    by blast
  have w': "w \<in> set (filter (\<lambda>c. c \<noteq> FontColorName q) (colorPool s))"
    by (rule pick_textWord_sound [OF w candidates_nonempty [OF pool(1,3)]])
  show ?thesis
    unfolding t
    by (rule question_sound [OF pool(1,2) f w' OrderBy_random_mset [OF ds] fill
          OrderBy_random_mset [OF fin]])
qed

lemma nextInt_less: "nextInt n rs = Inr (i, rs') \<Longrightarrow> i < n"
  by (auto simp: nextInt_def nat_less_iff split: if_splits list.splits)

lemma generateQuestion_InrD:
  assumes "generateQuestion pool now rs = Inr (q, rs')" "filter (\<lambda>c. c \<noteq> fontColorName q) pool \<noteq> []"
  shows "\<exists>w ds opts r2 r3 r4.
      fontColorName q \<in> set pool
    \<and> w \<in> set (filter (\<lambda>c. c \<noteq> fontColorName q) pool)
    \<and> Collections_shuffle (filter (\<lambda>c. c \<noteq> fontColorName q \<and> c \<noteq> w) pool) r2 = Some (ds, r3)
    \<and> fill_options (fontColorName q # take 3 ds) r3 = Some (opts, r4)
    \<and> Collections_shuffle opts r4 = Some (options q, rs')
    \<and> textWord q = ToUpper w"
proof -
  from assms(1) obtain i r1 where i: "nextInt (length pool) rs = Inr (i, r1)"
    by (auto simp: generateQuestion_def split: sum.splits)
  let ?f = "pool ! i"
  let ?wc = "filter (\<lambda>c. c \<noteq> ?f) pool"
  from assms(1) i obtain w r2
    where w: "(if ?wc = [] then Inr (''Black'', r1)
               else (case nextInt (length ?wc) r1 of Inl f \<Rightarrow> Inl f
                     | Inr (j, rs') \<Rightarrow> Inr (?wc ! j, rs'))) = Inr (w, r2)"
    by (auto simp: generateQuestion_def Let_def split: sum.splits)
  from assms(1) i w obtain ds r3
    where ds: "Collections_shuffle (filter (\<lambda>c. c \<noteq> ?f \<and> c \<noteq> w) pool) r2 = Some (ds, r3)"
    by (auto simp: generateQuestion_def Let_def split: option.splits)
  from assms(1) i w ds obtain opts r4
    where opts: "fill_options (?f # take 3 ds) r3 = Some (opts, r4)"
    by (auto simp: generateQuestion_def Let_def split: option.splits)
  from assms(1) i w ds opts obtain opts' r5
    where fin: "Collections_shuffle opts r4 = Some (opts', r5)"
    by (auto simp: generateQuestion_def Let_def split: option.splits)
  from assms(1) i w ds opts fin
  have q: "fontColorName q = ?f" "textWord q = ToUpper w" "options q = opts'" "rs' = r5"
    by (auto simp: generateQuestion_def Let_def)
  have fp: "?f \<in> set pool" using nextInt_less [OF i] by simp
  from assms(2) have ne: "?wc \<noteq> []" by (simp add: q(1))
  with w obtain j r where j: "nextInt (length ?wc) r1 = Inr (j, r)" "w = ?wc ! j"
    by (auto split: sum.splits)
  have "w \<in> set ?wc" unfolding j(2) using nextInt_less [OF j(1)] by (intro nth_mem)
  with fp ds opts fin q show ?thesis
    unfolding q(1-3)
    by (intro exI [of _ w] exI [of _ ds] exI [of _ opts] exI [of _ r2]
        exI [of _ r3] exI [of _ r4]) simp
qed

lemma generateQuestion_sound:
  assumes pool: "distinct pool" "set pool \<subseteq> set Keys" "4 \<le> length pool"
    and q: "generateQuestion pool now rs = Inr (q, rs')"
  shows "textWord q \<noteq> fontColorName q
    \<and> \<not> Equals_OrdinalIgnoreCase (textWord q) (fontColorName q)
    \<and> length (options q) = 4 \<and> distinct (options q)
    \<and> fontColorName q \<in> set (options q) \<and> set (options q) \<subseteq> set Keys
    \<and> (card {c \<in> set pool. c \<noteq> fontColorName q \<and> ToUpper c \<noteq> textWord q} < 3 \<longrightarrow>
          {c \<in> set pool. c \<noteq> fontColorName q \<and> ToUpper c \<noteq> textWord q} \<subseteq> set (options q)
          \<and> card (set (options q) - insert (fontColorName q)
                   {c \<in> set pool. c \<noteq> fontColorName q \<and> ToUpper c \<noteq> textWord q})
              = 3 - card {c \<in> set pool. c \<noteq> fontColorName q \<and> ToUpper c \<noteq> textWord q})
    \<and> (3 \<le> card {c \<in> set pool. c \<noteq> fontColorName q \<and> ToUpper c \<noteq> textWord q} \<longrightarrow>
          set (options q) \<subseteq> insert (fontColorName q)
             {c \<in> set pool. c \<noteq> fontColorName q \<and> ToUpper c \<noteq> textWord q})"
proof -
  from generateQuestion_InrD [OF q candidates_nonempty [OF pool(1,3)]]
  obtain w ds opts r2 r3 r4 where
    f: "fontColorName q \<in> set pool"
    and w: "w \<in> set (filter (\<lambda>c. c \<noteq> fontColorName q) pool)"
    and ds: "Collections_shuffle (filter (\<lambda>c. c \<noteq> fontColorName q \<and> c \<noteq> w) pool) r2 = Some (ds, r3)"
    and fill: "fill_options (fontColorName q # take 3 ds) r3 = Some (opts, r4)"
    and fin: "Collections_shuffle opts r4 = Some (options q, rs')"
    and t: "textWord q = ToUpper w"
    by blast
  show ?thesis
    unfolding t
    by (rule question_sound [OF pool(1,2) f w Collections_shuffle_mset [OF ds] fill
          Collections_shuffle_mset [OF fin]])
qed


subsection \<open>Draws on which the generators return\<close>

lemma OrderBy_random_enough:
  "length ks = length xs \<Longrightarrow>
   OrderBy_random xs (ks @ rest)
     = Some (map snd (sort_key fst (zip (map (\<lambda>r. r mod 2147483647) ks) xs)), rest)"
  by (simp add: OrderBy_random_def)

lemma fill_options_enough:
  "distinct opts \<Longrightarrow> length opts \<le> 4 \<Longrightarrow> n = 4 - length opts
   \<Longrightarrow> \<exists>fs. \<forall>rest. \<exists>opts'. fill_options opts (fs @ rest) = Some (opts', rest)"
proof (induction n arbitrary: opts)
  case 0
  then have l: "\<not> length opts < 4" by simp
  have "fill_options opts ([] @ rest) = Some (opts, rest)" for rest
    using l by (cases rest) simp_all
  then show ?case by blast
next
  case (Suc n)
  then have l: "length opts < 4" by simp
  have "card (set opts) < card (set Keys)"
    using l distinct_card [OF Suc.prems(1)] distinct_card [OF distinct_Keys]
    by (simp add: length_Keys)
  then have "\<not> set Keys \<subseteq> set opts" using card_mono [of "set opts" "set Keys"] by auto
  then obtain k where k: "k \<in> set Keys" "k \<notin> set opts" by blast
  then obtain i where i: "i < length Keys" "Keys ! i = k" by (auto simp: in_set_conv_nth)
  have "distinct (opts @ [k])" "length (opts @ [k]) \<le> 4" "n = 4 - length (opts @ [k])"
    using Suc.prems k(2) l by simp_all
  from Suc.IH [OF this] obtain fs
    where fs: "\<And>rest. \<exists>opts'. fill_options (opts @ [k]) (fs @ rest) = Some (opts', rest)"
    by blast
  have m: "nat (int i mod int (length Colors)) = i" using i(1) by (simp add: length_Keys)
  have "fill_options opts ((int i # fs) @ rest) = fill_options (opts @ [k]) (fs @ rest)" for rest
    using l k(2) by (simp add: m i(2) Let_def)
  with fs have "\<forall>rest. \<exists>opts'. fill_options opts ((int i # fs) @ rest) = Some (opts', rest)"
    by simp
  then show ?case by blast
qed

lemma shuffle_from_enough:
  "\<exists>l'. \<forall>rest. shuffle_from n l (replicate (n - 1) 0 @ rest) = Some (l', rest)"
proof (induction n arbitrary: l)
  case 0
  show ?case by simp
next
  case (Suc m)
  show ?case
  proof (cases m)
    case 0
    then show ?thesis by simp
  next
    case (Suc k)
    from Suc.IH [of "swap l (Suc k) (nat (0 mod int (Suc (Suc k))))"]
    show ?thesis by (simp add: Suc)
  qed
qed

lemma Collections_shuffle_enough:
  "\<exists>l'. \<forall>rest. Collections_shuffle l (replicate (length l - 1) 0 @ rest) = Some (l', rest)"
  unfolding Collections_shuffle_def by (rule shuffle_from_enough)

lemma first_options_distinct:
  assumes "distinct pool" "mset ds = mset (filter (\<lambda>c. c \<noteq> f \<and> c \<noteq> w) pool)"
  shows "distinct (f # take 3 ds)" "length (f # take 3 ds) \<le> 4"
proof -
  have "set ds = set (filter (\<lambda>c. c \<noteq> f \<and> c \<noteq> w) pool)" by (rule mset_eq_setD [OF assms(2)])
  then have "f \<notin> set ds" by simp
  then have "f \<notin> set (take 3 ds)" using set_take_subset [of 3 ds] by blast
  moreover have "distinct ds" using mset_eq_imp_distinct_iff [OF assms(2)] assms(1) by simp
  ultimately show "distinct (f # take 3 ds)" by simp
  show "length (f # take 3 ds) \<le> 4" by simp
qed

lemma NextQuestion_returns:
  assumes act: "State s = Active"
    and pool: "distinct (colorPool s)" "4 \<le> length (colorPool s)"
  shows "\<exists>rs. \<forall>rest. \<exists>q s'. NextQuestion s (rs @ rest) = Inr (Some q, s', rest)"
proof -
  let ?f = "colorPool s ! 0"
  let ?wc = "filter (\<lambda>c. c \<noteq> ?f) (colorPool s)"
  let ?w = "?wc ! 0"
  let ?cand = "filter (\<lambda>c. c \<noteq> ?f \<and> c \<noteq> ?w) (colorPool s)"
  obtain ks :: "int list" where ks: "length ks = length ?cand" using Ex_list_of_length by blast
  obtain zs :: "int list" where zs: "length zs = 4" using Ex_list_of_length by blast
  let ?shuf = "map snd (sort_key fst (zip (map (\<lambda>r. r mod 2147483647) ks) ?cand))"
  have o1: "OrderBy_random ?cand (ks @ rest) = Some (?shuf, rest)" for rest
    by (rule OrderBy_random_enough [OF ks])
  have "mset ?shuf = mset ?cand" using OrderBy_random_mset [OF o1 [of "[]"]] .
  from first_options_distinct [OF pool(1) this]
  have "\<exists>fs. \<forall>rest. \<exists>opts'. fill_options (?f # take 3 ?shuf) (fs @ rest) = Some (opts', rest)"
    by (intro fill_options_enough) simp_all
  then obtain fs
    where fs: "\<And>rest. \<exists>opts'. fill_options (?f # take 3 ?shuf) (fs @ rest) = Some (opts', rest)"
    by blast
  have ne: "colorPool s \<noteq> []" "?wc \<noteq> []"
    using pool candidates_nonempty [OF pool] by auto
  have "\<exists>q s'. NextQuestion s ((0 # 0 # ks @ fs @ zs) @ rest) = Inr (Some q, s', rest)" for rest
  proof -
    from fs [of "zs @ rest"] obtain opts
      where f1: "fill_options (?f # take 3 ?shuf) (fs @ zs @ rest) = Some (opts, zs @ rest)"
      by blast
    have "mset ?shuf = mset ?cand" using OrderBy_random_mset [OF o1 [of "[]"]] .
    from fill_options_sound [OF f1 first_options_distinct [OF pool(1) this]]
    have "length zs = length opts" using zs by auto
    from OrderBy_random_enough [OF this]
    have o2: "OrderBy_random opts (zs @ rest)
      = Some (map snd (sort_key fst (zip (map (\<lambda>r. r mod 2147483647) zs) opts)), rest)" .
    have r: "Random_Next (length (colorPool s)) (0 # 0 # ks @ fs @ zs @ rest)
               = Some (0, 0 # ks @ fs @ zs @ rest)"
      by (simp add: Random_Next_def)
    have p: "pick_textWord ?wc (0 # ks @ fs @ zs @ rest) = Some (?w, ks @ fs @ zs @ rest)"
      using ne(2) by (simp add: pick_textWord_def Random_Next_def)
    show ?thesis
      using act ne(1) by (simp add: NextQuestion_def Let_def r p o1 f1 o2)
  qed
  then show ?thesis by blast
qed

lemma generateQuestion_returns:
  assumes pool: "distinct pool" "4 \<le> length pool"
  shows "\<exists>rs. \<forall>rest. \<exists>q. generateQuestion pool now (rs @ rest) = Inr (q, rest)"
proof -
  let ?f = "pool ! 0"
  let ?wc = "filter (\<lambda>c. c \<noteq> ?f) pool"
  let ?w = "?wc ! 0"
  let ?cand = "filter (\<lambda>c. c \<noteq> ?f \<and> c \<noteq> ?w) pool"
  obtain ks :: "int list" where ks: "ks = replicate (length ?cand - 1) 0" by blast
  obtain zs :: "int list" where zs: "zs = replicate (4 - 1) 0" by blast
  from Collections_shuffle_enough [of ?cand] obtain ds
    where o1: "\<And>rest. Collections_shuffle ?cand (ks @ rest) = Some (ds, rest)"
    unfolding ks by blast
  have md: "mset ds = mset ?cand" by (rule Collections_shuffle_mset [OF o1 [of "[]"]])
  from first_options_distinct [OF pool(1) md]
  have "\<exists>fs. \<forall>rest. \<exists>opts'. fill_options (?f # take 3 ds) (fs @ rest) = Some (opts', rest)"
    by (intro fill_options_enough) simp_all
  then obtain fs
    where fs: "\<And>rest. \<exists>opts'. fill_options (?f # take 3 ds) (fs @ rest) = Some (opts', rest)"
    by blast
  have ne: "pool \<noteq> []" "?wc \<noteq> []"
    using pool candidates_nonempty [OF pool] by auto
  have "\<exists>q. generateQuestion pool now ((0 # 0 # ks @ fs @ zs) @ rest) = Inr (q, rest)" for rest
  proof -
    from fs [of "zs @ rest"] obtain opts
      where f1: "fill_options (?f # take 3 ds) (fs @ zs @ rest) = Some (opts, zs @ rest)"
      by blast
    from fill_options_sound [OF f1 first_options_distinct [OF pool(1) md]]
    have "length opts = 4" by auto
    with Collections_shuffle_enough [of opts] obtain final
      where o2: "Collections_shuffle opts (zs @ rest) = Some (final, rest)"
      unfolding zs by auto
    have r: "nextInt (length pool) (0 # 0 # ks @ fs @ zs @ rest) = Inr (0, 0 # ks @ fs @ zs @ rest)"
      using ne(1) by (simp add: nextInt_def)
    have p: "nextInt (length ?wc) (0 # ks @ fs @ zs @ rest) = Inr (0, ks @ fs @ zs @ rest)"
      using ne(2) by (simp add: nextInt_def)
    show ?thesis
      using ne(2) by (simp add: generateQuestion_def Let_def r p o1 f1 o2)
  qed
  then show ?thesis by blast
qed

subsection \<open>Two questions, evaluated\<close>

lemma GetColorPool_1: "GetColorPool 1 = [''Red'', ''Blue'', ''Green'', ''Yellow'']"
  by (simp add: GetColorPool_def Keys_def Colors_def wrap32_def Let_def)

lemma getColorPoolForDifficulty_2:
  "getColorPoolForDifficulty 2 = Inr [''Red'', ''Blue'', ''Green'', ''Yellow'', ''Purple'', ''Orange'']"
  by (simp add: getColorPoolForDifficulty_def Keys_def Colors_def wrap32_def Let_def)

lemma NextQuestion_example:
  "NextQuestion (Start (new_GameSession Endless) 0) [0, 0, 5, 3, 4, 1, 2, 3, 4]
   = Inr (Some example_question,
          (Start (new_GameSession Endless) 0)\<lparr>CurrentQuestion := Some example_question\<rparr>, [])"
  by (simp add: generator_defs example_question_def)

lemma generateQuestion_example:
  "generateQuestion [''Red'', ''Blue'', ''Green'', ''Yellow'', ''Purple'', ''Orange'']
      1700000000000 [0, 0, 0, 0, 0, 0, 0, 0]
   = Inr (example_question_java, [])"
  by (simp add: generateQuestion_def nextInt_def Collections_shuffle_def swap_def
      example_question_java_def Keys_def Colors_def ToUpper_def ToUpper_char_def char_of_def
      bit_0 Let_def)

lemma ToUpper_examples:
  "ToUpper ''Red'' = ''RED''" "ToUpper ''Blue'' = ''BLUE''" "ToUpper ''Green'' = ''GREEN''"
  "ToUpper ''Yellow'' = ''YELLOW''" "ToUpper ''Purple'' = ''PURPLE''"
  "ToUpper ''Orange'' = ''ORANGE''"
  by (simp_all add: ToUpper_def ToUpper_char_def char_of_def bit_0 Let_def)

lemma distractors_example:
  "{c \<in> set [''Red'', ''Blue'', ''Green'', ''Yellow'']. c \<noteq> ''Red'' \<and> ToUpper c \<noteq> ''BLUE''}
     = {''Green'', ''Yellow''}"
proof -
  have "filter (\<lambda>c. c \<noteq> ''Red'' \<and> ToUpper c \<noteq> ''BLUE'') [''Red'', ''Blue'', ''Green'', ''Yellow'']
        = [''Green'', ''Yellow'']"
    by (simp add: ToUpper_examples)
  then have "set (filter (\<lambda>c. c \<noteq> ''Red'' \<and> ToUpper c \<noteq> ''BLUE'')
                [''Red'', ''Blue'', ''Green'', ''Yellow'']) = set [''Green'', ''Yellow'']"
    by (rule arg_cong)
  then show ?thesis by (simp only: set_filter list.set)
qed

lemma distractors_example_java:
  "{c \<in> set [''Red'', ''Blue'', ''Green'', ''Yellow'', ''Purple'', ''Orange''].
      c \<noteq> ''Red'' \<and> ToUpper c \<noteq> ''BLUE''}
     = {''Green'', ''Yellow'', ''Purple'', ''Orange''}"
proof -
  have "filter (\<lambda>c. c \<noteq> ''Red'' \<and> ToUpper c \<noteq> ''BLUE'')
          [''Red'', ''Blue'', ''Green'', ''Yellow'', ''Purple'', ''Orange'']
        = [''Green'', ''Yellow'', ''Purple'', ''Orange'']"
    by (simp add: ToUpper_examples)
  then have "set (filter (\<lambda>c. c \<noteq> ''Red'' \<and> ToUpper c \<noteq> ''BLUE'')
                [''Red'', ''Blue'', ''Green'', ''Yellow'', ''Purple'', ''Orange''])
             = set [''Green'', ''Yellow'', ''Purple'', ''Orange'']"
    by (rule arg_cong)
  then show ?thesis by (simp only: set_filter list.set)
qed

subsection \<open>Every question of the two generators\<close>

text \<open>
  C5. Over a pool of at least four different colours of the registry, every question that
  \<open>NextQuestion\<close> (C#) or \<open>generateQuestion\<close> (Java) returns shows a word that is
  not the name of the font colour, as strings and also when upper and lower case are
  identified; its options are exactly four, pairwise different, all of the registry, and
  the font colour is one of them. The distractors of the pool are its colours other than
  the font colour and the colour the word names. When they are fewer than three, all of
  them are among the options and the remaining \<open>3 - n\<close> options are further colours of
  the registry; when they are three or more, every option other than the font colour is
  one of them. The filling loop has no bound of its own: a call returns when the generator
  draws a colour that is not yet an option. For every such pool there are draws on which
  \<open>generateQuestion\<close>, and \<open>NextQuestion\<close> in an active session, return a question,
  whatever numbers follow them.
\<close>

theorem generated_question_wellformed:
  assumes "distinct pool" and "set pool \<subseteq> set Keys" and "4 \<le> length pool"
  shows "(colorPool s = pool \<and> NextQuestion s rs = Inr (Some q, s', rs') \<longrightarrow>
            TextWord q \<noteq> FontColorName q
          \<and> \<not> Equals_OrdinalIgnoreCase (TextWord q) (FontColorName q)
          \<and> length (Options q) = 4 \<and> distinct (Options q)
          \<and> FontColorName q \<in> set (Options q) \<and> set (Options q) \<subseteq> set Keys
          \<and> (card {c \<in> set pool. c \<noteq> FontColorName q \<and> ToUpper c \<noteq> TextWord q} < 3 \<longrightarrow>
                {c \<in> set pool. c \<noteq> FontColorName q \<and> ToUpper c \<noteq> TextWord q} \<subseteq> set (Options q)
              \<and> card (set (Options q) - insert (FontColorName q)
                         {c \<in> set pool. c \<noteq> FontColorName q \<and> ToUpper c \<noteq> TextWord q})
                  = 3 - card {c \<in> set pool. c \<noteq> FontColorName q \<and> ToUpper c \<noteq> TextWord q})
          \<and> (3 \<le> card {c \<in> set pool. c \<noteq> FontColorName q \<and> ToUpper c \<noteq> TextWord q} \<longrightarrow>
                set (Options q) \<subseteq> insert (FontColorName q)
                   {c \<in> set pool. c \<noteq> FontColorName q \<and> ToUpper c \<noteq> TextWord q}))
       \<and> (generateQuestion pool now rs = Inr (jq, rs'') \<longrightarrow>
            textWord jq \<noteq> fontColorName jq
          \<and> \<not> Equals_OrdinalIgnoreCase (textWord jq) (fontColorName jq)
          \<and> length (options jq) = 4 \<and> distinct (options jq)
          \<and> fontColorName jq \<in> set (options jq) \<and> set (options jq) \<subseteq> set Keys
          \<and> (card {c \<in> set pool. c \<noteq> fontColorName jq \<and> ToUpper c \<noteq> textWord jq} < 3 \<longrightarrow>
                {c \<in> set pool. c \<noteq> fontColorName jq \<and> ToUpper c \<noteq> textWord jq} \<subseteq> set (options jq)
              \<and> card (set (options jq) - insert (fontColorName jq)
                         {c \<in> set pool. c \<noteq> fontColorName jq \<and> ToUpper c \<noteq> textWord jq})
                  = 3 - card {c \<in> set pool. c \<noteq> fontColorName jq \<and> ToUpper c \<noteq> textWord jq})
          \<and> (3 \<le> card {c \<in> set pool. c \<noteq> fontColorName jq \<and> ToUpper c \<noteq> textWord jq} \<longrightarrow>
                set (options jq) \<subseteq> insert (fontColorName jq)
                   {c \<in> set pool. c \<noteq> fontColorName jq \<and> ToUpper c \<noteq> textWord jq}))
       \<and> (State s = Active \<and> colorPool s = pool \<longrightarrow>
            (\<exists>draws. \<forall>more. \<exists>q' s''. NextQuestion s (draws @ more) = Inr (Some q', s'', more)))
       \<and> (\<exists>draws. \<forall>more. \<exists>jq'. generateQuestion pool now (draws @ more) = Inr (jq', more))"
proof (intro conjI)
  show "(colorPool s = pool \<and> NextQuestion s rs = Inr (Some q, s', rs') \<longrightarrow>
            TextWord q \<noteq> FontColorName q
          \<and> \<not> Equals_OrdinalIgnoreCase (TextWord q) (FontColorName q)
          \<and> length (Options q) = 4 \<and> distinct (Options q)
          \<and> FontColorName q \<in> set (Options q) \<and> set (Options q) \<subseteq> set Keys
          \<and> (card {c \<in> set pool. c \<noteq> FontColorName q \<and> ToUpper c \<noteq> TextWord q} < 3 \<longrightarrow>
                {c \<in> set pool. c \<noteq> FontColorName q \<and> ToUpper c \<noteq> TextWord q} \<subseteq> set (Options q)
              \<and> card (set (Options q) - insert (FontColorName q)
                         {c \<in> set pool. c \<noteq> FontColorName q \<and> ToUpper c \<noteq> TextWord q})
                  = 3 - card {c \<in> set pool. c \<noteq> FontColorName q \<and> ToUpper c \<noteq> TextWord q})
          \<and> (3 \<le> card {c \<in> set pool. c \<noteq> FontColorName q \<and> ToUpper c \<noteq> TextWord q} \<longrightarrow>
                set (Options q) \<subseteq> insert (FontColorName q)
                   {c \<in> set pool. c \<noteq> FontColorName q \<and> ToUpper c \<noteq> TextWord q}))"
  proof (rule impI)
    assume a: "colorPool s = pool \<and> NextQuestion s rs = Inr (Some q, s', rs')"
    then have p: "distinct (colorPool s)" "set (colorPool s) \<subseteq> set Keys" "4 \<le> length (colorPool s)"
      using assms by simp_all
    from a have n: "NextQuestion s rs = Inr (Some q, s', rs')" by simp
    from a have c: "colorPool s = pool" by simp
    show "TextWord q \<noteq> FontColorName q
            \<and> \<not> Equals_OrdinalIgnoreCase (TextWord q) (FontColorName q)
            \<and> length (Options q) = 4 \<and> distinct (Options q)
            \<and> FontColorName q \<in> set (Options q) \<and> set (Options q) \<subseteq> set Keys
            \<and> (card {c \<in> set pool. c \<noteq> FontColorName q \<and> ToUpper c \<noteq> TextWord q} < 3 \<longrightarrow>
                  {c \<in> set pool. c \<noteq> FontColorName q \<and> ToUpper c \<noteq> TextWord q} \<subseteq> set (Options q)
                \<and> card (set (Options q) - insert (FontColorName q)
                           {c \<in> set pool. c \<noteq> FontColorName q \<and> ToUpper c \<noteq> TextWord q})
                    = 3 - card {c \<in> set pool. c \<noteq> FontColorName q \<and> ToUpper c \<noteq> TextWord q})
            \<and> (3 \<le> card {c \<in> set pool. c \<noteq> FontColorName q \<and> ToUpper c \<noteq> TextWord q} \<longrightarrow>
                  set (Options q) \<subseteq> insert (FontColorName q)
                     {c \<in> set pool. c \<noteq> FontColorName q \<and> ToUpper c \<noteq> TextWord q})"
      using NextQuestion_sound [OF p n] unfolding c .
  qed
  show "(generateQuestion pool now rs = Inr (jq, rs'') \<longrightarrow>
            textWord jq \<noteq> fontColorName jq
          \<and> \<not> Equals_OrdinalIgnoreCase (textWord jq) (fontColorName jq)
          \<and> length (options jq) = 4 \<and> distinct (options jq)
          \<and> fontColorName jq \<in> set (options jq) \<and> set (options jq) \<subseteq> set Keys
          \<and> (card {c \<in> set pool. c \<noteq> fontColorName jq \<and> ToUpper c \<noteq> textWord jq} < 3 \<longrightarrow>
                {c \<in> set pool. c \<noteq> fontColorName jq \<and> ToUpper c \<noteq> textWord jq} \<subseteq> set (options jq)
              \<and> card (set (options jq) - insert (fontColorName jq)
                         {c \<in> set pool. c \<noteq> fontColorName jq \<and> ToUpper c \<noteq> textWord jq})
                  = 3 - card {c \<in> set pool. c \<noteq> fontColorName jq \<and> ToUpper c \<noteq> textWord jq})
          \<and> (3 \<le> card {c \<in> set pool. c \<noteq> fontColorName jq \<and> ToUpper c \<noteq> textWord jq} \<longrightarrow>
                set (options jq) \<subseteq> insert (fontColorName jq)
                   {c \<in> set pool. c \<noteq> fontColorName jq \<and> ToUpper c \<noteq> textWord jq}))"
  proof (rule impI)
    assume "generateQuestion pool now rs = Inr (jq, rs'')"
    then show "textWord jq \<noteq> fontColorName jq
            \<and> \<not> Equals_OrdinalIgnoreCase (textWord jq) (fontColorName jq)
            \<and> length (options jq) = 4 \<and> distinct (options jq)
            \<and> fontColorName jq \<in> set (options jq) \<and> set (options jq) \<subseteq> set Keys
            \<and> (card {c \<in> set pool. c \<noteq> fontColorName jq \<and> ToUpper c \<noteq> textWord jq} < 3 \<longrightarrow>
                  {c \<in> set pool. c \<noteq> fontColorName jq \<and> ToUpper c \<noteq> textWord jq} \<subseteq> set (options jq)
                \<and> card (set (options jq) - insert (fontColorName jq)
                           {c \<in> set pool. c \<noteq> fontColorName jq \<and> ToUpper c \<noteq> textWord jq})
                    = 3 - card {c \<in> set pool. c \<noteq> fontColorName jq \<and> ToUpper c \<noteq> textWord jq})
            \<and> (3 \<le> card {c \<in> set pool. c \<noteq> fontColorName jq \<and> ToUpper c \<noteq> textWord jq} \<longrightarrow>
                  set (options jq) \<subseteq> insert (fontColorName jq)
                     {c \<in> set pool. c \<noteq> fontColorName jq \<and> ToUpper c \<noteq> textWord jq})"
      by (rule generateQuestion_sound [OF assms])
  qed
  show "(State s = Active \<and> colorPool s = pool \<longrightarrow>
            (\<exists>draws. \<forall>more. \<exists>q' s''. NextQuestion s (draws @ more) = Inr (Some q', s'', more)))"
  proof (rule impI)
    assume a: "State s = Active \<and> colorPool s = pool"
    then have "distinct (colorPool s)" "4 \<le> length (colorPool s)" using assms by simp_all
    with a show "\<exists>draws. \<forall>more. \<exists>q' s''. NextQuestion s (draws @ more) = Inr (Some q', s'', more)"
      by (intro NextQuestion_returns) simp_all
  qed
  show "(\<exists>draws. \<forall>more. \<exists>jq'. generateQuestion pool now (draws @ more) = Inr (jq', more))"
    by (rule generateQuestion_returns [OF assms(1,3)])
qed

theorem generated_question_wellformed_witness:
  "distinct (GetColorPool 1)
   \<and> set (GetColorPool 1) \<subseteq> set Keys
   \<and> 4 \<le> length (GetColorPool 1)
   \<and> colorPool (Start (new_GameSession Endless) 0) = GetColorPool 1
   \<and> NextQuestion (Start (new_GameSession Endless) 0) [0, 0, 5, 3, 4, 1, 2, 3, 4]
       = Inr (Some example_question, (Start (new_GameSession Endless) 0)\<lparr>CurrentQuestion := Some example_question\<rparr>, [])
   \<and> card {c \<in> set (GetColorPool 1). c \<noteq> FontColorName example_question \<and> ToUpper c \<noteq> TextWord example_question} < 3
   \<and> TextWord example_question \<noteq> FontColorName example_question
   \<and> \<not> Equals_OrdinalIgnoreCase (TextWord example_question) (FontColorName example_question)
   \<and> length (Options example_question) = 4
   \<and> distinct (Options example_question)
   \<and> FontColorName example_question \<in> set (Options example_question)
   \<and> set (Options example_question) \<subseteq> set Keys
   \<and> {c \<in> set (GetColorPool 1). c \<noteq> FontColorName example_question \<and> ToUpper c \<noteq> TextWord example_question} \<subseteq> set (Options example_question)
   \<and> card (set (Options example_question) - insert (FontColorName example_question) {c \<in> set (GetColorPool 1). c \<noteq> FontColorName example_question \<and> ToUpper c \<noteq> TextWord example_question}) = 3 - card {c \<in> set (GetColorPool 1). c \<noteq> FontColorName example_question \<and> ToUpper c \<noteq> TextWord example_question}
   \<and> distinct [''Red'', ''Blue'', ''Green'', ''Yellow'', ''Purple'', ''Orange'']
   \<and> set [''Red'', ''Blue'', ''Green'', ''Yellow'', ''Purple'', ''Orange''] \<subseteq> set Keys
   \<and> 4 \<le> length [''Red'', ''Blue'', ''Green'', ''Yellow'', ''Purple'', ''Orange'']
   \<and> getColorPoolForDifficulty 2 = Inr [''Red'', ''Blue'', ''Green'', ''Yellow'', ''Purple'', ''Orange'']
   \<and> generateQuestion [''Red'', ''Blue'', ''Green'', ''Yellow'', ''Purple'', ''Orange''] 1700000000000 [0, 0, 0, 0, 0, 0, 0, 0] = Inr (example_question_java, [])
   \<and> 3 \<le> card {c \<in> set [''Red'', ''Blue'', ''Green'', ''Yellow'', ''Purple'', ''Orange'']. c \<noteq> fontColorName example_question_java \<and> ToUpper c \<noteq> textWord example_question_java}
   \<and> textWord example_question_java \<noteq> fontColorName example_question_java
   \<and> \<not> Equals_OrdinalIgnoreCase (textWord example_question_java) (fontColorName example_question_java)
   \<and> length (options example_question_java) = 4
   \<and> distinct (options example_question_java)
   \<and> fontColorName example_question_java \<in> set (options example_question_java)
   \<and> set (options example_question_java) \<subseteq> set Keys
   \<and> set (options example_question_java) \<subseteq> insert (fontColorName example_question_java) {c \<in> set [''Red'', ''Blue'', ''Green'', ''Yellow'', ''Purple'', ''Orange'']. c \<noteq> fontColorName example_question_java \<and> ToUpper c \<noteq> textWord example_question_java}
   \<and> State (Start (new_GameSession Endless) 0) = Active
   \<and> (\<exists>draws. \<forall>more. \<exists>q' s''. NextQuestion (Start (new_GameSession Endless) 0) (draws @ more) = Inr (Some q', s'', more))
   \<and> (\<exists>draws. \<forall>more. \<exists>jq'. generateQuestion [''Red'', ''Blue'', ''Green'', ''Yellow'', ''Purple'', ''Orange''] 1700000000000 (draws @ more) = Inr (jq', more))"
proof -
  have p1: "distinct (GetColorPool 1)" "set (GetColorPool 1) \<subseteq> set Keys" "4 \<le> length (GetColorPool 1)"
    by (simp_all add: GetColorPool_1 Keys_eq)
  have c1: "colorPool (Start (new_GameSession Endless) 0) = GetColorPool 1"
    by (simp add: Start_def new_GameSession_def)
  note n1 = NextQuestion_example
  have e1: "FontColorName example_question = ''Red''" "TextWord example_question = ''BLUE''"
    by (simp_all add: example_question_def)
  have d1: "{c \<in> set (GetColorPool 1). c \<noteq> FontColorName example_question \<and> ToUpper c \<noteq> TextWord example_question} = {''Green'', ''Yellow''}"
    unfolding GetColorPool_1 e1 by (rule distractors_example)
  have k1: "card {c \<in> set (GetColorPool 1). c \<noteq> FontColorName example_question \<and> ToUpper c \<noteq> TextWord example_question} < 3"
    unfolding d1 by simp
  note t1 = generated_question_wellformed [OF p1,
      where s = "Start (new_GameSession Endless) 0" and rs = "[0, 0, 5, 3, 4, 1, 2, 3, 4]" and q = example_question
        and s' = "(Start (new_GameSession Endless) 0)\<lparr>CurrentQuestion := Some example_question\<rparr>" and rs' = "[]"]
  note r1 = t1 [THEN conjunct1, THEN mp, OF conjI [OF c1 n1]]
  from r1 have a1: "TextWord example_question \<noteq> FontColorName example_question"
    "\<not> Equals_OrdinalIgnoreCase (TextWord example_question) (FontColorName example_question)"
    "length (Options example_question) = 4"
    "distinct (Options example_question)"
    "FontColorName example_question \<in> set (Options example_question)"
    "set (Options example_question) \<subseteq> set Keys"
    by blast+
  from r1 k1 have b1: "{c \<in> set (GetColorPool 1). c \<noteq> FontColorName example_question \<and> ToUpper c \<noteq> TextWord example_question} \<subseteq> set (Options example_question)"
    "card (set (Options example_question) - insert (FontColorName example_question) {c \<in> set (GetColorPool 1). c \<noteq> FontColorName example_question \<and> ToUpper c \<noteq> TextWord example_question}) = 3 - card {c \<in> set (GetColorPool 1). c \<noteq> FontColorName example_question \<and> ToUpper c \<noteq> TextWord example_question}"
    by blast+
  have p2: "distinct [''Red'', ''Blue'', ''Green'', ''Yellow'', ''Purple'', ''Orange'']" "set [''Red'', ''Blue'', ''Green'', ''Yellow'', ''Purple'', ''Orange''] \<subseteq> set Keys" "4 \<le> length [''Red'', ''Blue'', ''Green'', ''Yellow'', ''Purple'', ''Orange'']"
    by (simp_all add: Keys_eq)
  note g2 = getColorPoolForDifficulty_2
  note n2 = generateQuestion_example
  have e2: "fontColorName example_question_java = ''Red''" "textWord example_question_java = ''BLUE''"
    by (simp_all add: example_question_java_def)
  have d2: "{c \<in> set [''Red'', ''Blue'', ''Green'', ''Yellow'', ''Purple'', ''Orange'']. c \<noteq> fontColorName example_question_java \<and> ToUpper c \<noteq> textWord example_question_java} = {''Green'', ''Yellow'', ''Purple'', ''Orange''}"
    unfolding e2 by (rule distractors_example_java)
  have k2: "3 \<le> card {c \<in> set [''Red'', ''Blue'', ''Green'', ''Yellow'', ''Purple'', ''Orange'']. c \<noteq> fontColorName example_question_java \<and> ToUpper c \<noteq> textWord example_question_java}"
    unfolding d2 by simp
  note t2 = generated_question_wellformed [OF p2,
      where now = 1700000000000 and rs = "[0, 0, 0, 0, 0, 0, 0, 0]" and jq = example_question_java and rs'' = "[]"]
  note r2 = t2 [THEN conjunct2, THEN conjunct1, THEN mp, OF n2]
  from r2 have a2: "textWord example_question_java \<noteq> fontColorName example_question_java"
    "\<not> Equals_OrdinalIgnoreCase (textWord example_question_java) (fontColorName example_question_java)"
    "length (options example_question_java) = 4"
    "distinct (options example_question_java)"
    "fontColorName example_question_java \<in> set (options example_question_java)"
    "set (options example_question_java) \<subseteq> set Keys"
    by blast+
  from r2 k2 have b2: "set (options example_question_java) \<subseteq> insert (fontColorName example_question_java) {c \<in> set [''Red'', ''Blue'', ''Green'', ''Yellow'', ''Purple'', ''Orange'']. c \<noteq> fontColorName example_question_java \<and> ToUpper c \<noteq> textWord example_question_java}"
    by blast+
  have u1: "State (Start (new_GameSession Endless) 0) = Active"
    by (simp add: Start_def)
  note v1 = t1 [THEN conjunct2, THEN conjunct2, THEN conjunct1, THEN mp, OF conjI [OF u1 c1]]
  note v2 = t2 [THEN conjunct2, THEN conjunct2, THEN conjunct2]
  from p1 c1 n1 k1 a1 b1 p2 g2 n2 k2 a2 b2 u1 v1 v2 show ?thesis by (intro conjI)
qed

end
